theory Spec2Isabelle
  imports Complex_Main "HOL-Library.Multiset"
begin

chapter \<open>LetterSkull: the web front end's core logic\<close>

text \<open>
  A shallow embedding of the TypeScript of the LetterSkull front end: the token-URI
  decoder, the gallery loader and its merge, the sheet compositor, the indexer proxy
  route and the mint page's reconciliation of Letters against Skulls. Every function
  keeps its source name; a promise that rejects or a statement that throws is a value
  \<open>Inl\<close> or \<open>None\<close>; component state is passed explicitly; contract reads and
  third-party calls are parameters. The first part holds the definitions, the second the
  properties proved about them.
\<close>

section \<open>JavaScript strings\<close>

text \<open>
  A JavaScript string is a sequence of UTF-16 code units. It is modelled as the list of
  its code units (natural numbers below 65536); \<open>js\<close> embeds an ASCII literal.
\<close>

type_synonym jsstring = "nat list"

definition js :: "string \<Rightarrow> jsstring" where
  "js s = map of_char s"

definition startsWith :: "jsstring \<Rightarrow> jsstring \<Rightarrow> bool" where
  "startsWith s p = (take (length p) s = p)"

text \<open>The errors the modelled code can throw; a fallible function returns \<open>jserror + 'a\<close>.\<close>

datatype jserror =
  InvalidCharacterError
| URIError
| SyntaxError
| TypeError
| ReadError
| CanvasError
| ImageLoadError
| UpstreamError

fun bind :: "jserror + 'a \<Rightarrow> ('a \<Rightarrow> jserror + 'b) \<Rightarrow> jserror + 'b" where
  "bind (Inl e) f = Inl e"
| "bind (Inr x) f = f x"

section \<open>BigInt and its decimal string\<close>

text \<open>
  \<open>BigInt.prototype.toString()\<close>: the decimal digits of the value, with a leading
  \<open>-\<close> for a negative one.
\<close>

fun natToDecimal :: "nat \<Rightarrow> jsstring" where
  "natToDecimal n = (if n < 10 then [48 + n] else natToDecimal (n div 10) @ [48 + n mod 10])"

definition bigintToString :: "int \<Rightarrow> jsstring" where
  "bigintToString i = (if i < 0 then 45 # natToDecimal (nat (- i)) else natToDecimal (nat i))"

text \<open>
  \<open>String.prototype.trim\<close> and the \<open>StrWhiteSpace\<close> of numeric strings use the same
  set: ECMA-262's \<open>WhiteSpace\<close> (TAB, VT, FF, the space separators, U+FEFF) and
  \<open>LineTerminator\<close> (LF, CR, U+2028, U+2029).
\<close>

definition isWhiteSpace :: "nat \<Rightarrow> bool" where
  "isWhiteSpace c =
     (c = 9 \<or> c = 10 \<or> c = 11 \<or> c = 12 \<or> c = 13 \<or> c = 32 \<or> c = 160 \<or> c = 5760
      \<or> (8192 \<le> c \<and> c \<le> 8202) \<or> c = 8232 \<or> c = 8233 \<or> c = 8239 \<or> c = 8287
      \<or> c = 12288 \<or> c = 65279)"

definition trim :: "jsstring \<Rightarrow> jsstring" where
  "trim s = rev (dropWhile isWhiteSpace (rev (dropWhile isWhiteSpace s)))"

text \<open>
  The value of a digit in a radix (a hexadecimal digit of either case, below the radix)
  and the mathematical value of a digit string, as ECMA-262 defines it: the value of
  the digits before the last, times the radix, plus the last digit's. An empty digit
  string, or one with a code unit that is no digit, has none.
\<close>

definition digitValue :: "nat \<Rightarrow> nat \<Rightarrow> nat option" where
  "digitValue radix c =
     (let v = (if 48 \<le> c \<and> c \<le> 57 then c - 48
               else if 97 \<le> c \<and> c \<le> 102 then c - 87
               else if 65 \<le> c \<and> c \<le> 70 then c - 55
               else radix)
      in if v < radix then Some v else None)"

definition digitsValue :: "nat \<Rightarrow> jsstring \<Rightarrow> nat option" where
  "digitsValue radix s =
     (if s = [] then None
      else map_option (foldl (\<lambda>acc d. acc * radix + d) 0) (those (map (digitValue radix) s)))"

text \<open>
  \<open>StringToBigInt\<close>: surrounding white space is dropped; the empty string is 0; a
  \<open>0x\<close>, \<open>0o\<close> or \<open>0b\<close> prefix of either case selects the radix and takes no
  sign; otherwise an optional sign and decimal digits. \<open>BigInt(string)\<close> throws
  \<open>SyntaxError\<close> where there is no value.
\<close>

definition StringToBigInt :: "jsstring \<Rightarrow> int option" where
  "StringToBigInt str =
     (let t = trim str
      in if t = [] then Some 0
         else if startsWith t (js ''0x'') \<or> startsWith t (js ''0X'')
              then map_option int (digitsValue 16 (drop 2 t))
         else if startsWith t (js ''0o'') \<or> startsWith t (js ''0O'')
              then map_option int (digitsValue 8 (drop 2 t))
         else if startsWith t (js ''0b'') \<or> startsWith t (js ''0B'')
              then map_option int (digitsValue 2 (drop 2 t))
         else if startsWith t (js ''+'') then map_option int (digitsValue 10 (drop 1 t))
         else if startsWith t (js ''-'') then map_option (\<lambda>n. - int n) (digitsValue 10 (drop 1 t))
         else map_option int (digitsValue 10 t))"

definition BigInt :: "jsstring \<Rightarrow> jserror + int" where
  "BigInt str = (case StringToBigInt str of None \<Rightarrow> Inl SyntaxError | Some v \<Rightarrow> Inr v)"

section \<open>Token-URI decoder\<close>

subsection \<open>Platform functions\<close>

text \<open>
  \<open>atob\<close> is the forgiving-base64 decode of the WHATWG Infra standard: ASCII whitespace
  is removed; when the length is then a multiple of four, one or two trailing \<open>=\<close> are
  removed; a length of 1 modulo 4 or a code unit outside the standard alphabet throws
  \<open>InvalidCharacterError\<close>; every four sextets give three bytes, a final group of
  two gives one byte and of three gives two. The result is a binary string: one code
  unit below 256 per byte.
\<close>

definition base64Alphabet :: jsstring where
  "base64Alphabet = js ''ABCDEFGHIJKLMNOPQRSTUVWXYZabcdefghijklmnopqrstuvwxyz0123456789+/''"

fun indexOf :: "'a \<Rightarrow> 'a list \<Rightarrow> nat option" where
  "indexOf x [] = None"
| "indexOf x (y # ys) = (if x = y then Some 0 else map_option Suc (indexOf x ys))"

definition base64Value :: "nat \<Rightarrow> nat option" where
  "base64Value c = indexOf c base64Alphabet"

definition isAsciiWhitespace :: "nat \<Rightarrow> bool" where
  "isAsciiWhitespace c = (c = 9 \<or> c = 10 \<or> c = 12 \<or> c = 13 \<or> c = 32)"

definition stripPadding :: "jsstring \<Rightarrow> jsstring" where
  "stripPadding d =
     (if 2 \<le> length d \<and> last d = 61 \<and> last (butlast d) = 61 then butlast (butlast d)
      else if 1 \<le> length d \<and> last d = 61 then butlast d
      else d)"

fun sextetsToBytes :: "nat list \<Rightarrow> nat list" where
  "sextetsToBytes (a # b # c # d # rest) =
     (let n = ((a * 64 + b) * 64 + c) * 64 + d
      in [n div 65536, n div 256 mod 256, n mod 256]) @ sextetsToBytes rest"
| "sextetsToBytes [a, b, c] = (let n = ((a * 64 + b) * 64 + c) div 4 in [n div 256, n mod 256])"
| "sextetsToBytes [a, b] = [(a * 64 + b) div 16]"
| "sextetsToBytes rest = []"

definition atob :: "jsstring \<Rightarrow> jserror + jsstring" where
  "atob str =
     (let d0 = filter (\<lambda>c. \<not> isAsciiWhitespace c) str;
          d = (if length d0 mod 4 = 0 then stripPadding d0 else d0)
      in if length d mod 4 = 1 then Inl InvalidCharacterError
         else case those (map base64Value d) of
                None \<Rightarrow> Inl InvalidCharacterError
              | Some sextets \<Rightarrow> Inr (sextetsToBytes sextets))"

text \<open>
  \<open>Array.from\<close> on a string iterates by code point: a high surrogate followed by a low
  surrogate is one element, every other code unit is an element of its own.
\<close>

fun Array_from :: "jsstring \<Rightarrow> jsstring list" where
  "Array_from (u # v # rest) =
     (if 55296 \<le> u \<and> u < 56320 \<and> 56320 \<le> v \<and> v < 57344
      then [u, v] # Array_from rest
      else [u] # Array_from (v # rest))"
| "Array_from [u] = [[u]]"
| "Array_from [] = []"

text \<open>\<open>Number.prototype.toString(16)\<close> on a non-negative integer, and \<open>padStart\<close> with
  a one-unit filler.\<close>

definition hexDigit :: "nat \<Rightarrow> nat" where
  "hexDigit d = (if d < 10 then 48 + d else 87 + d)"

fun toString16 :: "nat \<Rightarrow> jsstring" where
  "toString16 n = (if n < 16 then [hexDigit n] else toString16 (n div 16) @ [hexDigit (n mod 16)])"

definition padStart :: "jsstring \<Rightarrow> nat \<Rightarrow> nat \<Rightarrow> jsstring" where
  "padStart s targetLength filler = replicate (targetLength - length s) filler @ s"

text \<open>
  \<open>decodeURIComponent\<close> is ECMA-262's \<open>Decode\<close> with an empty set of preserved escapes.
  An escape is \<open>%\<close> and two hexadecimal digits of either case. An escaped byte below
  128 is the code unit itself; a lead byte announces one to three continuation escapes,
  and the octets must be the well-formed UTF-8 encoding of a code point (no overlong
  form, no surrogate, at most U+10FFFF), which is appended in UTF-16. Everything else
  throws \<open>URIError\<close>.
\<close>

definition hexValue :: "nat \<Rightarrow> nat option" where
  "hexValue c =
     (if 48 \<le> c \<and> c \<le> 57 then Some (c - 48)
      else if 97 \<le> c \<and> c \<le> 102 then Some (c - 87)
      else if 65 \<le> c \<and> c \<le> 70 then Some (c - 55)
      else None)"

fun ParseHexOctet :: "jsstring \<Rightarrow> nat option" where
  "ParseHexOctet (h # l # rest) =
     (case (hexValue h, hexValue l) of
        (Some x, Some y) \<Rightarrow> Some (16 * x + y)
      | _ \<Rightarrow> None)"
| "ParseHexOctet rest = None"

definition leadingOnes :: "nat \<Rightarrow> nat" where
  "leadingOnes b =
     (if b < 128 then 0 else if b < 192 then 1 else if b < 224 then 2
      else if b < 240 then 3 else if b < 248 then 4 else 5)"

fun continuationOctets :: "nat \<Rightarrow> jsstring \<Rightarrow> nat list option" where
  "continuationOctets 0 s = Some []"
| "continuationOctets (Suc k) (p # rest) =
     (if p \<noteq> 37 then None
      else case ParseHexOctet rest of
             None \<Rightarrow> None
           | Some b \<Rightarrow> map_option (Cons b) (continuationOctets k (drop 2 rest)))"
| "continuationOctets (Suc k) [] = None"

definition isContinuation :: "nat \<Rightarrow> bool" where
  "isContinuation b = (128 \<le> b \<and> b < 192)"

fun utf8CodePoint :: "nat list \<Rightarrow> nat option" where
  "utf8CodePoint [b0, b1] =
     (let v = (b0 mod 32) * 64 + b1 mod 64
      in if isContinuation b1 \<and> 128 \<le> v then Some v else None)"
| "utf8CodePoint [b0, b1, b2] =
     (let v = ((b0 mod 16) * 64 + b1 mod 64) * 64 + b2 mod 64
      in if isContinuation b1 \<and> isContinuation b2 \<and> 2048 \<le> v \<and> \<not> (55296 \<le> v \<and> v < 57344)
         then Some v else None)"
| "utf8CodePoint [b0, b1, b2, b3] =
     (let v = (((b0 mod 8) * 64 + b1 mod 64) * 64 + b2 mod 64) * 64 + b3 mod 64
      in if isContinuation b1 \<and> isContinuation b2 \<and> isContinuation b3 \<and> 65536 \<le> v \<and> v \<le> 1114111
         then Some v else None)"
| "utf8CodePoint octets = None"

definition UTF16EncodeCodePoint :: "nat \<Rightarrow> jsstring" where
  "UTF16EncodeCodePoint cp =
     (if cp \<le> 65535 then [cp]
      else [55296 + (cp - 65536) div 1024, 56320 + (cp - 65536) mod 1024])"

fun prepend :: "jsstring \<Rightarrow> jserror + jsstring \<Rightarrow> jserror + jsstring" where
  "prepend s (Inl e) = Inl e"
| "prepend s (Inr r) = Inr (s @ r)"

fun decodeURIComponent :: "jsstring \<Rightarrow> jserror + jsstring" where
  "decodeURIComponent [] = Inr []"
| "decodeURIComponent (c # rest) =
     (if c \<noteq> 37 then prepend [c] (decodeURIComponent rest)
      else case ParseHexOctet rest of
             None \<Rightarrow> Inl URIError
           | Some b \<Rightarrow>
               if leadingOnes b = 0 then prepend [b] (decodeURIComponent (drop 2 rest))
               else if leadingOnes b = 1 \<or> 4 < leadingOnes b then Inl URIError
               else (case continuationOctets (leadingOnes b - 1) (drop 2 rest) of
                       None \<Rightarrow> Inl URIError
                     | Some octets \<Rightarrow>
                         (case utf8CodePoint (b # octets) of
                            None \<Rightarrow> Inl URIError
                          | Some v \<Rightarrow>
                              prepend (UTF16EncodeCodePoint v)
                                (decodeURIComponent (drop (3 * (leadingOnes b - 1)) (drop 2 rest))))))"

subsection \<open>The page's decoder\<close>

text \<open>
  \<open>decodeBase64ToString\<close>: each element of the binary string becomes \<open>%\<close> and the
  two-digit lower-case hexadecimal of its first code unit, and the joined text is
  decoded as a URI component.
\<close>

definition percentEscape :: "jsstring \<Rightarrow> jsstring" where
  "percentEscape c =
     (case c of
        [] \<Rightarrow> js ''%NaN''
      | u # _ \<Rightarrow> 37 # padStart (toString16 u) 2 48)"

definition percentEncoded :: "jsstring \<Rightarrow> jsstring" where
  "percentEncoded bin = concat (map percentEscape (Array_from bin))"

definition decodeBase64ToString :: "jsstring \<Rightarrow> jserror + jsstring" where
  "decodeBase64ToString b64 =
     bind (atob b64) (\<lambda>bin. decodeURIComponent (percentEncoded bin))"

text \<open>
  The JSON values \<open>JSON.parse\<close> returns. Numbers keep their literal text: the page never
  reads one. \<open>JSON.parse\<close> itself is the engine's: it is a parameter of the decoder,
  \<open>Inl SyntaxError\<close> where it throws.
\<close>

datatype json =
  JNull
| JBool bool
| JNumber jsstring
| JString jsstring
| JArray "json list"
| JObject "(jsstring \<times> json) list"

definition parseTokenUriToSvg ::
  "(jsstring \<Rightarrow> jserror + json) \<Rightarrow> jsstring \<Rightarrow> jserror + jsstring option" where
  "parseTokenUriToSvg JSON_parse tokenUri =
     (let prefix = js ''data:application/json;base64,''
      in if \<not> startsWith tokenUri prefix then Inr None
         else
           bind (decodeBase64ToString (drop (length prefix) tokenUri)) (\<lambda>jsonStr.
           bind (JSON_parse jsonStr) (\<lambda>parsed.
             case parsed of
               JNull \<Rightarrow> Inl TypeError
             | JObject members \<Rightarrow>
                 (case map_of members (js ''image'') of
                    Some (JString img) \<Rightarrow>
                      if img = [] then Inr None
                      else
                        (let imgPrefix = js ''data:image/svg+xml;base64,''
                         in if startsWith img imgPrefix
                            then bind (decodeBase64ToString (drop (length imgPrefix) img))
                                   (\<lambda>svg. Inr (Some svg))
                            else Inr None)
                  | _ \<Rightarrow> Inr None)
             | _ \<Rightarrow> Inr None)))"

subsection \<open>The encodings the decoder inverts\<close>

text \<open>
  The reference encoders of the round-trip property, from their standards: UTF-8
  (RFC 3629) of a Unicode scalar value, the standard base64 alphabet with padding
  (RFC 4648, section 4), and the UTF-16 form a JavaScript string gives a code point.
\<close>

definition isScalarValue :: "nat \<Rightarrow> bool" where
  "isScalarValue cp = (cp < 55296 \<or> (57344 \<le> cp \<and> cp \<le> 1114111))"

definition utf8Encode :: "nat \<Rightarrow> nat list" where
  "utf8Encode cp =
     (if cp < 128 then [cp]
      else if cp < 2048 then [192 + cp div 64, 128 + cp mod 64]
      else if cp < 65536 then [224 + cp div 4096, 128 + cp div 64 mod 64, 128 + cp mod 64]
      else [240 + cp div 262144, 128 + cp div 4096 mod 64, 128 + cp div 64 mod 64,
            128 + cp mod 64])"

definition utf8 :: "nat list \<Rightarrow> nat list" where
  "utf8 cps = concat (map utf8Encode cps)"

definition utf16 :: "nat list \<Rightarrow> jsstring" where
  "utf16 cps = concat (map UTF16EncodeCodePoint cps)"

definition base64Char :: "nat \<Rightarrow> nat" where
  "base64Char v = base64Alphabet ! v"

fun bytesToSextets :: "nat list \<Rightarrow> nat list" where
  "bytesToSextets (a # b # c # rest) =
     [a div 4, (a mod 4) * 16 + b div 16, (b mod 16) * 4 + c div 64, c mod 64]
       @ bytesToSextets rest"
| "bytesToSextets [a, b] = [a div 4, (a mod 4) * 16 + b div 16, (b mod 16) * 4]"
| "bytesToSextets [a] = [a div 4, (a mod 4) * 16]"
| "bytesToSextets [] = []"

definition base64Encode :: "nat list \<Rightarrow> jsstring" where
  "base64Encode bytes =
     map base64Char (bytesToSextets bytes) @ replicate ((3 - length bytes mod 3) mod 3) 61"

section \<open>Gallery page\<close>

text \<open>
  The page's \<open>SkullItem\<close> (its \<open>loading\<close> field is \<open>skullLoading\<close> here, the name
  \<open>loading\<close> being the mint page's; \<open>error\<close> holds the caught error, whose message the
  page keeps) and the two contract views it reads.
\<close>

record SkullItem =
  tokenId :: int
  svg :: "jsstring option"
  skullLoading :: bool
  error :: "jserror option"

record GalleryChain =
  nextTokenId :: "int option"
  tokenURI :: "int \<Rightarrow> jsstring option"

text \<open>
  The component state the loader uses (\<open>items\<close> is \<open>galleryItems\<close> here).
  \<open>mintedCount\<close> is a \<open>bigint\<close>; \<open>loaded\<close>,
  \<open>pageSize\<close> and \<open>maxToLoad\<close> are JavaScript numbers holding integers, modelled as
  integers: \<open>Number(mintedCount)\<close> and the additions are exact up to \<open>2^53\<close>
  (\<open>exactAsNumber\<close>), and a \<open>uint256\<close> count is always finite as a number.
\<close>

record Gallery =
  mintedCount :: int
  galleryItems :: "SkullItem list"
  loadingCount :: bool
  loaded :: int

definition initialGallery :: Gallery where
  "initialGallery = \<lparr>mintedCount = 0, galleryItems = [], loadingCount = True, loaded = 0\<rparr>"

definition pageSize :: int where
  "pageSize = 80"

definition exactAsNumber :: "int \<Rightarrow> bool" where
  "exactAsNumber n = (\<bar>n\<bar> \<le> 9007199254740992)"

definition maxToLoad :: "Gallery \<Rightarrow> int" where
  "maxToLoad st = (let mc = mintedCount st in if mc < 0 then 0 else mc)"

text \<open>
  \<open>fetchMintedCount\<close>: without a client nothing happens; otherwise the next-id counter
  is read and the supply stored; the \<open>finally\<close> clears \<open>loadingCount\<close> also when the
  read throws.
\<close>

definition fetchMintedCount :: "GalleryChain option \<Rightarrow> Gallery \<Rightarrow> Gallery" where
  "fetchMintedCount publicClient st =
     (case publicClient of
        None \<Rightarrow> st
      | Some chain \<Rightarrow>
          (case nextTokenId chain of
             None \<Rightarrow> st\<lparr>loadingCount := False\<rparr>
           | Some n \<Rightarrow> st\<lparr>mintedCount := (if n > 0 then n - 1 else 0), loadingCount := False\<rparr>))"

text \<open>One element of the \<open>Promise.all\<close> of \<open>loadMore\<close>: the read, the decoding, the catch.\<close>

definition fetchSkull :: "(jsstring \<Rightarrow> jserror + json) \<Rightarrow> GalleryChain \<Rightarrow> int \<Rightarrow> SkullItem" where
  "fetchSkull JSON_parse chain tid =
     (case tokenURI chain tid of
        None \<Rightarrow> \<lparr>tokenId = tid, svg = None, skullLoading = False, error = Some ReadError\<rparr>
      | Some uri \<Rightarrow>
          (case parseTokenUriToSvg JSON_parse uri of
             Inl e \<Rightarrow> \<lparr>tokenId = tid, svg = None, skullLoading = False, error = Some e\<rparr>
           | Inr s \<Rightarrow> \<lparr>tokenId = tid, svg = s, skullLoading = False, error = None\<rparr>))"

text \<open>
  A JavaScript \<open>Map\<close> keeps its entries in insertion order; \<open>set\<close> on a key already
  present replaces the value in place, on a new key appends an entry.
\<close>

fun mapSet :: "('k \<times> 'v) list \<Rightarrow> 'k \<Rightarrow> 'v \<Rightarrow> ('k \<times> 'v) list" where
  "mapSet [] k v = [(k, v)]"
| "mapSet ((k', v') # m) k v = (if k' = k then (k, v) # m else (k', v') # mapSet m k v)"

definition mapValues :: "('k \<times> 'v) list \<Rightarrow> 'v list" where
  "mapValues m = map snd m"

text \<open>
  \<open>Array.prototype.sort\<close> with a comparator, as the stable insertion sort engines run
  on short arrays: each element in turn is inserted into the sorted prefix, before the
  first element it compares below.
\<close>

fun insertBy :: "('a \<Rightarrow> 'a \<Rightarrow> int) \<Rightarrow> 'a \<Rightarrow> 'a list \<Rightarrow> 'a list" where
  "insertBy cmp x [] = [x]"
| "insertBy cmp x (y # ys) = (if cmp x y < 0 then x # y # ys else y # insertBy cmp x ys)"

definition sortBy :: "('a \<Rightarrow> 'a \<Rightarrow> int) \<Rightarrow> 'a list \<Rightarrow> 'a list" where
  "sortBy cmp xs = foldl (\<lambda>acc x. insertBy cmp x acc) [] xs"

text \<open>The merge step of \<open>loadMore\<close>: the updater passed to the second \<open>setItems\<close>.\<close>

definition compareTokenId :: "SkullItem \<Rightarrow> SkullItem \<Rightarrow> int" where
  "compareTokenId a b = (if tokenId a < tokenId b then - 1 else 1)"

definition mergeItems :: "SkullItem list \<Rightarrow> SkullItem list \<Rightarrow> SkullItem list" where
  "mergeItems prev results =
     (let m0 = foldl (\<lambda>m it. mapSet m (bigintToString (tokenId it)) it) [] prev;
          m1 = foldl (\<lambda>m r. mapSet m (bigintToString (tokenId r)) r) m0 results
      in sortBy compareTokenId (mapValues m1))"

text \<open>
  The entry that wins for a token id in a sequence of writes: the last item carrying it.
\<close>

definition lastWriter :: "SkullItem list \<Rightarrow> int \<Rightarrow> SkullItem option" where
  "lastWriter xs i = find (\<lambda>x. tokenId x = i) (rev xs)"

text \<open>
  \<open>loadMore\<close> on the state: the new state once the page has settled, and the token ids
  whose \<open>tokenURI\<close> was requested. Placeholders are appended first; the results come
  back in the order of the batch, whatever order the reads complete in.
\<close>

definition placeholder :: "int \<Rightarrow> SkullItem" where
  "placeholder tid = \<lparr>tokenId = tid, svg = None, skullLoading = True, error = None\<rparr>"

definition loadMore ::
  "(jsstring \<Rightarrow> jserror + json) \<Rightarrow> GalleryChain option \<Rightarrow> Gallery \<Rightarrow> Gallery \<times> int list" where
  "loadMore JSON_parse publicClient st =
     (case publicClient of
        None \<Rightarrow> (st, [])
      | Some chain \<Rightarrow>
          if loaded st \<ge> maxToLoad st then (st, [])
          else (let start = loaded st + 1;
                    end' = min (loaded st + pageSize) (maxToLoad st);
                    batchTokenIds = [start..end'];
                    prev = galleryItems st @ map placeholder batchTokenIds;
                    results = map (fetchSkull JSON_parse chain) batchTokenIds
                in (st\<lparr>galleryItems := mergeItems prev results, loaded := end'\<rparr>,
                    batchTokenIds)))"

text \<open>
  Test inputs: a chain with 200 skulls minted whose metadata reads all fail, the item such
  a failed read leaves, and the gallery after its supply has been fetched from that chain.
\<close>

definition bareChain :: GalleryChain where
  "bareChain = \<lparr>nextTokenId = Some 201, tokenURI = (\<lambda>_. None)\<rparr>"

definition failedSkull :: "int \<Rightarrow> SkullItem" where
  "failedSkull i = \<lparr>tokenId = i, svg = None, skullLoading = False, error = Some ReadError\<rparr>"

definition bareGallery :: Gallery where
  "bareGallery = fetchMintedCount (Some bareChain) initialGallery"

section \<open>Sheet compositor\<close>









section \<open>Indexer proxy route\<close>

subsection \<open>Token-id normalisation\<close>

text \<open>
  The two regular expressions of \<open>parseAlchemyTokenIdToDecimal\<close>:
  \<open>/^[0-9a-fA-F]+$/\<close> (a non-empty string of hexadecimal digits) and \<open>/[a-fA-F]/\<close>
  (some hexadecimal letter).
\<close>

definition isDecimalDigit :: "nat \<Rightarrow> bool" where
  "isDecimalDigit c = (48 \<le> c \<and> c \<le> 57)"

definition isHexLetter :: "nat \<Rightarrow> bool" where
  "isHexLetter c = ((97 \<le> c \<and> c \<le> 102) \<or> (65 \<le> c \<and> c \<le> 70))"

definition isHexDigit :: "nat \<Rightarrow> bool" where
  "isHexDigit c = (isDecimalDigit c \<or> isHexLetter c)"

definition onlyHexDigits :: "jsstring \<Rightarrow> bool" where
  "onlyHexDigits t = (t \<noteq> [] \<and> list_all isHexDigit t)"

definition hasHexLetter :: "jsstring \<Rightarrow> bool" where
  "hasHexLetter t = list_ex isHexLetter t"

definition parseAlchemyTokenIdToDecimal :: "jsstring \<Rightarrow> jserror + jsstring" where
  "parseAlchemyTokenIdToDecimal rawTokenId =
     (let t = trim rawTokenId
      in if startsWith t (js ''0x'') then bind (BigInt t) (\<lambda>v. Inr (bigintToString v))
         else if onlyHexDigits t \<and> hasHexLetter t
              then bind (BigInt (js ''0x'' @ t)) (\<lambda>v. Inr (bigintToString v))
         else bind (BigInt t) (\<lambda>v. Inr (bigintToString v)))"

text \<open>
  The value a digit string denotes in a radix, by place value: the reference the
  normalisation is compared with.
\<close>

definition digitOf :: "nat \<Rightarrow> nat" where
  "digitOf c = (if isDecimalDigit c then c - 48 else if 97 \<le> c then c - 87 else c - 55)"

fun placeValue :: "nat \<Rightarrow> nat list \<Rightarrow> nat" where
  "placeValue radix [] = 0"
| "placeValue radix (d # ds) = d * radix ^ length ds + placeValue radix ds"

definition hexadecimalValue :: "jsstring \<Rightarrow> int" where
  "hexadecimalValue s = int (placeValue 16 (map digitOf s))"

definition decimalValue :: "jsstring \<Rightarrow> int" where
  "decimalValue s = int (placeValue 10 (map digitOf s))"

subsection \<open>Sorting with a comparator that can throw\<close>

text \<open>
  The route sorts the decimal strings with \<open>BigInt(a) < BigInt(b) ? -1 : 1\<close>. The
  comparator parses its arguments again, so it is fallible; the sort is the insertion
  sort of the gallery, stopping at the first throw.
\<close>

definition compareDecimal :: "jsstring \<Rightarrow> jsstring \<Rightarrow> jserror + int" where
  "compareDecimal a b =
     bind (BigInt a) (\<lambda>x. bind (BigInt b) (\<lambda>y. Inr (if x < y then - 1 else 1)))"

fun insertByE :: "('a \<Rightarrow> 'a \<Rightarrow> jserror + int) \<Rightarrow> 'a \<Rightarrow> 'a list \<Rightarrow> jserror + 'a list" where
  "insertByE cmp x [] = Inr [x]"
| "insertByE cmp x (y # ys) =
     bind (cmp x y) (\<lambda>c. if c < 0 then Inr (x # y # ys)
                           else bind (insertByE cmp x ys) (\<lambda>r. Inr (y # r)))"

definition sortByE :: "('a \<Rightarrow> 'a \<Rightarrow> jserror + int) \<Rightarrow> 'a list \<Rightarrow> jserror + 'a list" where
  "sortByE cmp xs = foldl (\<lambda>acc x. bind acc (insertByE cmp x)) (Inr []) xs"

fun mapE :: "('a \<Rightarrow> jserror + 'b) \<Rightarrow> 'a list \<Rightarrow> jserror + 'b list" where
  "mapE f [] = Inr []"
| "mapE f (x # xs) = bind (f x) (\<lambda>y. bind (mapE f xs) (\<lambda>ys. Inr (y # ys)))"

subsection \<open>Metadata extraction\<close>

text \<open>
  The SDK's metadata value is read as a JSON value. \<open>typeof v === "object" && v !== null\<close>
  holds for objects and arrays; a property of an array, or a missing one, is
  \<open>undefined\<close>.
\<close>

fun isObject :: "json \<Rightarrow> bool" where
  "isObject (JObject members) = True"
| "isObject (JArray elements) = True"
| "isObject v = False"

fun property :: "json \<Rightarrow> jsstring \<Rightarrow> json option" where
  "property (JObject members) k = map_of members k"
| "property v k = None"

fun stringOf :: "json option \<Rightarrow> jsstring option" where
  "stringOf (Some (JString s)) = Some s"
| "stringOf v = None"

fun objectOf :: "json option \<Rightarrow> json option" where
  "objectOf (Some v) = (if isObject v then Some v else None)"
| "objectOf None = None"

definition extractTokenUri :: "json \<Rightarrow> jsstring option" where
  "extractTokenUri md =
     (if \<not> isObject md then None
      else case stringOf (property md (js ''tokenUri'')) of
             Some s \<Rightarrow> Some s
           | None \<Rightarrow>
               (case (case objectOf (property md (js ''tokenUri'')) of
                        Some tokenUriVal \<Rightarrow> stringOf (property tokenUriVal (js ''raw''))
                      | None \<Rightarrow> None) of
                  Some raw \<Rightarrow> Some raw
                | None \<Rightarrow>
                    (case objectOf (property md (js ''raw'')) of
                       Some rawObj \<Rightarrow> stringOf (property rawObj (js ''tokenUri''))
                     | None \<Rightarrow> None)))"

definition rawMetadata :: "json \<Rightarrow> jsstring \<Rightarrow> jsstring option" where
  "rawMetadata md k =
     (case objectOf (property md (js ''raw'')) of
        Some rawObj \<Rightarrow>
          (case objectOf (property rawObj (js ''metadata'')) of
             Some rawMd \<Rightarrow> stringOf (property rawMd k)
           | None \<Rightarrow> None)
      | None \<Rightarrow> None)"

definition extractImageUrl :: "json \<Rightarrow> jsstring option" where
  "extractImageUrl md =
     (if \<not> isObject md then None
      else case (case objectOf (property md (js ''image'')) of
                   Some img \<Rightarrow>
                     (case stringOf (property img (js ''pngUrl'')) of
                        Some u \<Rightarrow> Some u
                      | None \<Rightarrow>
                          (case stringOf (property img (js ''cachedUrl'')) of
                             Some u \<Rightarrow> Some u
                           | None \<Rightarrow> stringOf (property img (js ''originalUrl''))))
                 | None \<Rightarrow> None) of
             Some u \<Rightarrow> Some u
           | None \<Rightarrow> rawMetadata md (js ''image''))"

definition extractName :: "json \<Rightarrow> jsstring option" where
  "extractName md =
     (if \<not> isObject md then None
      else case stringOf (property md (js ''name'')) of
             Some s \<Rightarrow> Some s
           | None \<Rightarrow> rawMetadata md (js ''name''))"

subsection \<open>The route\<close>

text \<open>
  The body schema: an object whose \<open>address\<close> is a string accepted by viem's
  \<open>isAddress\<close> (a parameter). \<open>safeParse\<close> returns the address or zod's issues, each
  with the path of the field it is about: a type issue at the root for a body that is no
  object, a type issue at \<open>address\<close> for a missing or non-string address, and the
  schema's custom issue for a string that is no address.
\<close>

datatype Issue =
  InvalidType "jsstring list"
| Custom "jsstring list" jsstring

fun issuePath :: "Issue \<Rightarrow> jsstring list" where
  "issuePath (InvalidType path) = path"
| "issuePath (Custom path message) = path"

definition safeParse :: "(jsstring \<Rightarrow> bool) \<Rightarrow> json \<Rightarrow> Issue list + jsstring" where
  "safeParse isAddress body =
     (case body of
        JObject members \<Rightarrow>
          (case map_of members (js ''address'') of
             Some (JString a) \<Rightarrow>
               if isAddress a then Inr a
               else Inl [Custom [js ''address''] (js ''Invalid Ethereum address format'')]
           | _ \<Rightarrow> Inl [InvalidType [js ''address'']])
      | _ \<Rightarrow> Inl [InvalidType []])"

text \<open>
  The indexing service: the token ids of the owner's Letters and the metadata of one
  token; \<open>None\<close> where the call throws. The log lists the calls made.
\<close>

record Alchemy =
  getNftsForOwner :: "jsstring \<Rightarrow> jsstring list option"
  getNftMetadata :: "jsstring \<Rightarrow> json option"

datatype UpstreamCall =
  CallGetNftsForOwner jsstring
| CallGetNftMetadata jsstring

record LetterItem =
  itemTokenId :: jsstring
  itemName :: "jsstring option"
  itemImageUrl :: "jsstring option"
  itemTokenUri :: "jsstring option"

datatype ResponseBody =
  ValidationFailed "Issue list"
| Failed jsstring jserror
| Success jsstring jsstring "LetterItem list"

record Response =
  status :: nat
  payload :: ResponseBody

definition LETTER_CONTRACT_ADDRESS :: jsstring where
  "LETTER_CONTRACT_ADDRESS = js ''0xb8261f4431928F176c5A07887c8fcAcCd13c6D16''"

definition fetchLetter :: "Alchemy \<Rightarrow> jsstring \<Rightarrow> LetterItem" where
  "fetchLetter alchemy tokenIdDec =
     (case getNftMetadata alchemy tokenIdDec of
        Some md \<Rightarrow>
          \<lparr>itemTokenId = tokenIdDec, itemName = extractName md,
           itemImageUrl = extractImageUrl md, itemTokenUri = extractTokenUri md\<rparr>
      | None \<Rightarrow>
          \<lparr>itemTokenId = tokenIdDec, itemName = None, itemImageUrl = None, itemTokenUri = None\<rparr>)"

definition serverError :: "jserror \<Rightarrow> Response" where
  "serverError e = \<lparr>status = 500, payload = Failed (js ''Failed to fetch NFTs'') e\<rparr>"

text \<open>
  \<open>POST\<close>: the request's JSON body (\<open>None\<close> when \<open>request.json()\<close> throws), validated,
  then the owner's token ids, normalised and sorted, then one metadata call per id, whose
  failure is caught per item. Every other throw reaches the outer \<open>catch\<close>.
\<close>

definition POST ::
  "(jsstring \<Rightarrow> bool) \<Rightarrow> Alchemy \<Rightarrow> json option \<Rightarrow> Response \<times> UpstreamCall list" where
  "POST isAddress alchemy requestJson =
     (case requestJson of
        None \<Rightarrow> (serverError SyntaxError, [])
      | Some body \<Rightarrow>
          (case safeParse isAddress body of
             Inl issues \<Rightarrow> (\<lparr>status = 400, payload = ValidationFailed issues\<rparr>, [])
           | Inr address \<Rightarrow>
               (case getNftsForOwner alchemy address of
                  None \<Rightarrow> (serverError UpstreamError, [CallGetNftsForOwner address])
                | Some owned \<Rightarrow>
                    (case bind (mapE parseAlchemyTokenIdToDecimal owned) (sortByE compareDecimal) of
                       Inl e \<Rightarrow> (serverError e, [CallGetNftsForOwner address])
                     | Inr tokenIds \<Rightarrow>
                         (\<lparr>status = 200,
                           payload = Success address LETTER_CONTRACT_ADDRESS
                                       (map (fetchLetter alchemy) tokenIds)\<rparr>,
                          CallGetNftsForOwner address # map CallGetNftMetadata tokenIds)))))"

text \<open>Test inputs: an address check by shape only, and an indexer that knows one wallet.\<close>

definition looksLikeAddress :: "jsstring \<Rightarrow> bool" where
  "looksLikeAddress a = (length a = 42 \<and> startsWith a (js ''0x'') \<and> list_all isHexDigit (drop 2 a))"

definition someWallet :: jsstring where
  "someWallet = js ''0x00000000000000000000000000000000deadbeef''"

definition demoAlchemy :: Alchemy where
  "demoAlchemy =
     \<lparr>getNftsForOwner = (\<lambda>a. if a = someWallet then Some [js ''0x0a'', js ''7'', js ''1f''] else None),
      getNftMetadata = (\<lambda>t. None)\<rparr>"


text \<open>
  Two more indexers for the same wallet: one that has metadata for token 7 only and
  throws for the others, and one that reports a token id \<open>BigInt\<close> refuses.
\<close>

definition metadataAlchemy :: Alchemy where
  "metadataAlchemy =
     \<lparr>getNftsForOwner = (\<lambda>a. if a = someWallet then Some [js ''0x0a'', js ''7'', js ''1f''] else None),
      getNftMetadata = (\<lambda>t. if t = js ''7'' then Some (JObject [(js ''name'', JString (js ''Letter 7''))])
                               else None)\<rparr>"

definition malformedAlchemy :: Alchemy where
  "malformedAlchemy =
     \<lparr>getNftsForOwner = (\<lambda>a. if a = someWallet then Some [js ''7'', js ''0x''] else None),
      getNftMetadata = (\<lambda>t. None)\<rparr>"
section \<open>Mint page: reconciliation of Letters against Skulls\<close>

text \<open>
  The page's \<open>Item\<close> type. Optional fields (\<open>undefined\<close> or \<open>null\<close>) are options;
  \<open>bigint\<close> fields are unbounded integers.
\<close>

record Item =
  letterTokenId :: int
  letterName :: "jsstring option"
  letterImageUrl :: "jsstring option"
  usedLetter :: bool
  skullTokenId :: int
  skullNonce :: int
  skullSvg :: "jsstring option"
  skullOwner :: "jsstring option"
  loading :: bool

text \<open>
  The chain-read capability: one function per contract view used by the page. A read
  that rejects (its promise throws) is \<open>None\<close>.
\<close>

record Chain =
  usedLetterToken :: "int \<Rightarrow> bool option"
  skullOfLetter :: "int \<Rightarrow> int option"
  ownerOf :: "int \<Rightarrow> jsstring option"
  nonceOf :: "int \<Rightarrow> int option"
  previewSvg :: "int \<Rightarrow> int \<Rightarrow> jsstring option"

text \<open>
  The contract reads a reconciliation issues. The log of one item lists its reads in the
  order they are started; the log of a round lists the items' logs in item order.
\<close>

datatype Read =
  ReadUsedLetterToken int
| ReadSkullOfLetter int
| ReadOwnerOf int
| ReadNonceOf int
| ReadPreviewSvg int int

text \<open>
  The body of the \<open>try\<close> block of \<open>hydrateSkulls\<close> for one item: the item it returns
  (\<open>None\<close> when a read threw) and the reads it issued. Both reads of a
  \<open>Promise.all\<close> pair are issued before either result is looked at.
\<close>

definition hydrateTry :: "Chain \<Rightarrow> Item \<Rightarrow> Item option \<times> Read list" where
  "hydrateTry chain it =
     (let lid = letterTokenId it;
          dual = [ReadUsedLetterToken lid, ReadSkullOfLetter lid]
      in case (usedLetterToken chain lid, skullOfLetter chain lid) of
           (Some used, Some skull) \<Rightarrow>
             (let minted = (used \<or> skull \<noteq> 0)
              in if \<not> minted \<or> skull = 0
                 then (Some (it\<lparr>usedLetter := used, skullTokenId := skull,
                                 skullOwner := None, skullNonce := 0,
                                 skullSvg := None, loading := False\<rparr>), dual)
                 else (let follow = dual @ [ReadOwnerOf skull, ReadNonceOf skull]
                       in case (ownerOf chain skull, nonceOf chain skull) of
                            (Some owner, Some nonce) \<Rightarrow>
                              (case previewSvg chain lid nonce of
                                 Some preview \<Rightarrow>
                                   (Some (it\<lparr>usedLetter := used, skullTokenId := skull,
                                                 skullOwner := Some owner, skullNonce := nonce,
                                                 skullSvg := Some preview, loading := False\<rparr>),
                                    follow @ [ReadPreviewSvg lid nonce])
                               | None \<Rightarrow> (None, follow @ [ReadPreviewSvg lid nonce]))
                          | _ \<Rightarrow> (None, follow)))
         | _ \<Rightarrow> (None, dual))"

text \<open>The whole per-item callback: the \<open>catch\<close> keeps the item and stops its loading.\<close>

definition hydrateItem :: "Chain \<Rightarrow> Item \<Rightarrow> Item \<times> Read list" where
  "hydrateItem chain it =
     (case hydrateTry chain it of
        (Some it', reads) \<Rightarrow> (it', reads)
      | (None, reads) \<Rightarrow> (it\<lparr>loading := False\<rparr>, reads))"

text \<open>
  \<open>hydrateSkulls(current)\<close> on the page state \<open>items\<close>: no client or an empty argument
  returns at once; otherwise every item is marked loading, the first 80 of \<open>current\<close>
  are reconciled, and the results replace the front of the state. Returns the new
  state and the reads issued.
\<close>

definition hydrateSkulls :: "Chain option \<Rightarrow> Item list \<Rightarrow> Item list \<Rightarrow> Item list \<times> Read list" where
  "hydrateSkulls publicClient items current =
     (case publicClient of
        None \<Rightarrow> (items, [])
      | Some chain \<Rightarrow>
          if length current = 0 then (items, [])
          else (let marked = map (\<lambda>x. x\<lparr>loading := True\<rparr>) items;
                    results = map (hydrateItem chain) (take 80 current);
                    nxt = map fst results
                in (nxt @ drop (length nxt) marked, concat (map snd results))))"

text \<open>The render-time classification of an item and the \<open>mintableCount\<close> memo.\<close>

definition minted :: "Item \<Rightarrow> bool" where
  "minted it = (usedLetter it \<or> skullTokenId it \<noteq> 0)"

definition disableMint :: "bool \<Rightarrow> bool \<Rightarrow> Item \<Rightarrow> bool" where
  "disableMint isPending isConfirming it =
     (minted it \<or> isPending \<or> isConfirming \<or> loading it)"

definition mintable :: "Item \<Rightarrow> bool" where
  "mintable x = (\<not> loading x \<and> \<not> usedLetter x \<and> skullTokenId x = 0)"

definition mintableCount :: "Item list \<Rightarrow> nat" where
  "mintableCount items = length (filter mintable items)"

text \<open>The items \<open>loadLettersFromApi\<close> builds from the proxy's letters, before hydration.\<close>

definition freshItem :: "int \<Rightarrow> jsstring option \<Rightarrow> jsstring option \<Rightarrow> Item" where
  "freshItem tid name imageUrl =
     \<lparr>letterTokenId = tid, letterName = name, letterImageUrl = imageUrl,
      usedLetter = False, skullTokenId = 0, skullNonce = 0, skullSvg = None,
      skullOwner = None, loading = True\<rparr>"

text \<open>
  The letter ids of the \<open>usedLetterToken\<close> reads in a log: one per item whose
  reconciliation was started.
\<close>

fun lettersRead :: "Read list \<Rightarrow> int list" where
  "lettersRead [] = []"
| "lettersRead (ReadUsedLetterToken l # rs) = l # lettersRead rs"
| "lettersRead (r # rs) = lettersRead rs"

text \<open>
  Concrete chains and states used as test inputs: a chain on which every letter is flagged
  used with no skull id recorded, a chain on which every read rejects, a chain on which
  every letter has minted skull 5 but the owner read rejects, a chain on which no letter
  is used, a chain on which every letter has minted skull 5 and every read answers, and a
  wallet holding 81 letters as \<open>loadLettersFromApi\<close> would build them.
\<close>

definition stuckChain :: Chain where
  "stuckChain = \<lparr>usedLetterToken = (\<lambda>_. Some True), skullOfLetter = (\<lambda>_. Some 0),
      ownerOf = (\<lambda>_. None), nonceOf = (\<lambda>_. None), previewSvg = (\<lambda>_ _. None)\<rparr>"

definition downChain :: Chain where
  "downChain = \<lparr>usedLetterToken = (\<lambda>_. None), skullOfLetter = (\<lambda>_. None),
      ownerOf = (\<lambda>_. None), nonceOf = (\<lambda>_. None), previewSvg = (\<lambda>_ _. None)\<rparr>"

definition halfChain :: Chain where
  "halfChain = \<lparr>usedLetterToken = (\<lambda>_. Some True), skullOfLetter = (\<lambda>_. Some 5),
      ownerOf = (\<lambda>_. None), nonceOf = (\<lambda>_. Some 0), previewSvg = (\<lambda>_ _. None)\<rparr>"

definition openChain :: Chain where
  "openChain = \<lparr>usedLetterToken = (\<lambda>_. Some False), skullOfLetter = (\<lambda>_. Some 0),
      ownerOf = (\<lambda>_. None), nonceOf = (\<lambda>_. None), previewSvg = (\<lambda>_ _. None)\<rparr>"

definition mintedChain :: Chain where
  "mintedChain = \<lparr>usedLetterToken = (\<lambda>_. Some True), skullOfLetter = (\<lambda>_. Some 5),
      ownerOf = (\<lambda>_. Some (js ''0xabc'')), nonceOf = (\<lambda>_. Some 3),
      previewSvg = (\<lambda>_ _. Some (js ''<svg/>''))\<rparr>"

definition manyLetters :: "Item list" where
  "manyLetters = map (\<lambda>k. freshItem (int k) None None) [1..<82]"

section \<open>Properties of the mint page\<close>

subsection \<open>Classification after a successful reconciliation\<close>

text \<open>
  Claim C1. When the two reads of an item answer \<open>used\<close> and \<open>skull\<close>, and, for a
  non-zero \<open>skull\<close>, the owner, nonce and preview reads answer too, the reconciliation
  does not throw and returns exactly: for \<open>skull = 0\<close> the item with the two answers, no
  owner, nonce 0, no preview and loading off, after the two dual reads only; otherwise
  the item with the answers of all five reads. The returned item is classified minted
  exactly when \<open>used\<close> holds or \<open>skull\<close> is non-zero, and it is counted mintable exactly
  when \<open>used\<close> is false and \<open>skull\<close> is zero; in any list the mintable count is the
  number of items that are not loading, not used and have a zero skull id. When \<open>used\<close>
  holds and \<open>skull\<close> is zero the item is minted, not mintable, and no owner, nonce or
  preview read is issued.
\<close>

theorem hydrateItem_classification:
  assumes used: "usedLetterToken chain (letterTokenId it) = Some used"
      and skull: "skullOfLetter chain (letterTokenId it) = Some skull"
      and follow: "skull \<noteq> 0 \<longrightarrow>
                     ownerOf chain skull = Some owner \<and> nonceOf chain skull = Some nonce \<and>
                     previewSvg chain (letterTokenId it) nonce = Some preview"
  shows "hydrateItem chain it =
           (if skull = 0
            then (it\<lparr>usedLetter := used, skullTokenId := 0, skullOwner := None, skullNonce := 0,
                      skullSvg := None, loading := False\<rparr>,
                  [ReadUsedLetterToken (letterTokenId it), ReadSkullOfLetter (letterTokenId it)])
            else (it\<lparr>usedLetter := used, skullTokenId := skull, skullOwner := Some owner,
                      skullNonce := nonce, skullSvg := Some preview, loading := False\<rparr>,
                  [ReadUsedLetterToken (letterTokenId it), ReadSkullOfLetter (letterTokenId it),
                   ReadOwnerOf skull, ReadNonceOf skull,
                   ReadPreviewSvg (letterTokenId it) nonce])) \<and>
         fst (hydrateTry chain it) \<noteq> None \<and>
         (minted (fst (hydrateItem chain it)) \<longleftrightarrow> (used \<or> skull \<noteq> 0)) \<and>
         (mintable (fst (hydrateItem chain it)) \<longleftrightarrow> (\<not> used \<and> skull = 0)) \<and>
         mintableCount [fst (hydrateItem chain it)] = (if \<not> used \<and> skull = 0 then 1 else 0) \<and>
         mintableCount xs =
           length (filter (\<lambda>x. \<not> loading x \<and> \<not> usedLetter x \<and> skullTokenId x = 0) xs) \<and>
         (used \<and> skull = 0 \<longrightarrow>
            minted (fst (hydrateItem chain it)) \<and>
            \<not> mintable (fst (hydrateItem chain it)) \<and>
            skullOwner (fst (hydrateItem chain it)) = None \<and>
            skullNonce (fst (hydrateItem chain it)) = 0 \<and>
            skullSvg (fst (hydrateItem chain it)) = None \<and>
            snd (hydrateItem chain it) =
              [ReadUsedLetterToken (letterTokenId it), ReadSkullOfLetter (letterTokenId it)])"
proof -
  have m: "mintable = (\<lambda>x. \<not> loading x \<and> \<not> usedLetter x \<and> skullTokenId x = 0)"
    by (rule ext) (simp add: mintable_def)
  have count: "mintableCount xs =
           length (filter (\<lambda>x. \<not> loading x \<and> \<not> usedLetter x \<and> skullTokenId x = 0) xs)"
    by (simp only: mintableCount_def m)
  show ?thesis
  proof (cases "skull = 0")
    case True
    have r: "hydrateTry chain it =
          (Some (it\<lparr>usedLetter := used, skullTokenId := 0, skullOwner := None, skullNonce := 0,
                      skullSvg := None, loading := False\<rparr>),
           [ReadUsedLetterToken (letterTokenId it), ReadSkullOfLetter (letterTokenId it)])"
      using used skull True by (simp add: hydrateTry_def Let_def)
    show ?thesis
      using True count by (simp add: hydrateItem_def r minted_def mintable_def mintableCount_def)
  next
    case False
    with follow have f: "ownerOf chain skull = Some owner" "nonceOf chain skull = Some nonce"
      "previewSvg chain (letterTokenId it) nonce = Some preview" by simp_all
    have r: "hydrateTry chain it =
          (Some (it\<lparr>usedLetter := used, skullTokenId := skull, skullOwner := Some owner,
                      skullNonce := nonce, skullSvg := Some preview, loading := False\<rparr>),
           [ReadUsedLetterToken (letterTokenId it), ReadSkullOfLetter (letterTokenId it),
            ReadOwnerOf skull, ReadNonceOf skull, ReadPreviewSvg (letterTokenId it) nonce])"
      using used skull False f by (simp add: hydrateTry_def Let_def)
    show ?thesis
      using False count by (simp add: hydrateItem_def r minted_def mintable_def mintableCount_def)
  qed
qed

theorem hydrateItem_classification_witness:
  "usedLetterToken stuckChain 7 = Some True \<and> skullOfLetter stuckChain 7 = Some 0 \<and>
   minted (fst (hydrateItem stuckChain (freshItem 7 None None))) \<and>
   \<not> mintable (fst (hydrateItem stuckChain (freshItem 7 None None))) \<and>
   snd (hydrateItem stuckChain (freshItem 7 None None)) = [ReadUsedLetterToken 7, ReadSkullOfLetter 7] \<and>
   usedLetterToken openChain 7 = Some False \<and> skullOfLetter openChain 7 = Some 0 \<and>
   \<not> minted (fst (hydrateItem openChain (freshItem 7 None None))) \<and>
   mintable (fst (hydrateItem openChain (freshItem 7 None None))) \<and>
   usedLetterToken mintedChain 7 = Some True \<and> skullOfLetter mintedChain 7 = Some 5 \<and>
   ownerOf mintedChain 5 = Some (js ''0xabc'') \<and> nonceOf mintedChain 5 = Some 3 \<and>
   previewSvg mintedChain 7 3 = Some (js ''<svg/>'') \<and>
   minted (fst (hydrateItem mintedChain (freshItem 7 None None))) \<and>
   \<not> mintable (fst (hydrateItem mintedChain (freshItem 7 None None))) \<and>
   skullOwner (fst (hydrateItem mintedChain (freshItem 7 None None))) = Some (js ''0xabc'') \<and>
   snd (hydrateItem mintedChain (freshItem 7 None None)) =
     [ReadUsedLetterToken 7, ReadSkullOfLetter 7, ReadOwnerOf 5, ReadNonceOf 5, ReadPreviewSvg 7 3]"
proof -
  have lid: "letterTokenId (freshItem 7 None None) = 7" by (simp add: freshItem_def)
  have s: "usedLetterToken stuckChain 7 = Some True" "skullOfLetter stuckChain 7 = Some 0"
    by (simp_all add: stuckChain_def)
  have sf: "(0::int) \<noteq> 0 \<longrightarrow> ownerOf stuckChain 0 = Some [] \<and> nonceOf stuckChain 0 = Some 0 \<and>
              previewSvg stuckChain (letterTokenId (freshItem 7 None None)) 0 = Some []" by simp
  have o: "usedLetterToken openChain 7 = Some False" "skullOfLetter openChain 7 = Some 0"
    by (simp_all add: openChain_def)
  have "of": "(0::int) \<noteq> 0 \<longrightarrow> ownerOf openChain 0 = Some [] \<and> nonceOf openChain 0 = Some 0 \<and>
              previewSvg openChain (letterTokenId (freshItem 7 None None)) 0 = Some []" by simp
  have c: "usedLetterToken mintedChain 7 = Some True" "skullOfLetter mintedChain 7 = Some 5"
    "ownerOf mintedChain 5 = Some (js ''0xabc'')" "nonceOf mintedChain 5 = Some 3"
    "previewSvg mintedChain 7 3 = Some (js ''<svg/>'')"
    by (simp_all add: mintedChain_def)
  have cf: "(5::int) \<noteq> 0 \<longrightarrow> ownerOf mintedChain 5 = Some (js ''0xabc'') \<and>
              nonceOf mintedChain 5 = Some 3 \<and>
              previewSvg mintedChain (letterTokenId (freshItem 7 None None)) 3 = Some (js ''<svg/>'')"
    using c by (simp add: lid)
  note t1 = hydrateItem_classification [of stuckChain "freshItem 7 None None" True 0 "[]" 0 "[]" "[]",
      unfolded lid, OF s sf [unfolded lid]]
  note t2 = hydrateItem_classification [of openChain "freshItem 7 None None" False 0 "[]" 0 "[]" "[]",
      unfolded lid, OF o "of" [unfolded lid]]
  note t3 = hydrateItem_classification [of mintedChain "freshItem 7 None None" True 5 "js ''0xabc''" 3
      "js ''<svg/>''" "[]", unfolded lid, OF c(1,2) cf [unfolded lid]]
  note u1 = t1 [THEN conjunct2, THEN conjunct2]
  note u2 = t2 [THEN conjunct2, THEN conjunct2]
  note u3 = t3 [THEN conjunct2, THEN conjunct2]
  note e3 = t3 [THEN conjunct1]
  from u1 have w1: "minted (fst (hydrateItem stuckChain (freshItem 7 None None)))"
    "\<not> mintable (fst (hydrateItem stuckChain (freshItem 7 None None)))"
    "snd (hydrateItem stuckChain (freshItem 7 None None)) = [ReadUsedLetterToken 7, ReadSkullOfLetter 7]"
    by simp_all
  from u2 have w2: "\<not> minted (fst (hydrateItem openChain (freshItem 7 None None)))"
    "mintable (fst (hydrateItem openChain (freshItem 7 None None)))"
    by simp_all
  from u3 have w3: "minted (fst (hydrateItem mintedChain (freshItem 7 None None)))"
    "\<not> mintable (fst (hydrateItem mintedChain (freshItem 7 None None)))"
    by simp_all
  from e3 have w4:
    "skullOwner (fst (hydrateItem mintedChain (freshItem 7 None None))) = Some (js ''0xabc'')"
    "snd (hydrateItem mintedChain (freshItem 7 None None)) =
     [ReadUsedLetterToken 7, ReadSkullOfLetter 7, ReadOwnerOf 5, ReadNonceOf 5, ReadPreviewSvg 7 3]"
    by simp_all
  from s o c w1 w2 w3 w4 show ?thesis by blast
qed

subsection \<open>A reconciliation that throws\<close>

text \<open>
  The \<open>catch\<close> branch is a frame: whenever a read throws, the returned item is the input
  item with its loading flag off, every other field kept.
\<close>

lemma hydrateItem_catch:
  "fst (hydrateTry chain it) = None \<Longrightarrow> fst (hydrateItem chain it) = it\<lparr>loading := False\<rparr>"
  by (cases "hydrateTry chain it") (auto simp: hydrateItem_def)

lemma hydrateTry_dual_fail:
  "usedLetterToken chain (letterTokenId it) = None \<or> skullOfLetter chain (letterTokenId it) = None
   \<Longrightarrow> hydrateTry chain it =
         (None, [ReadUsedLetterToken (letterTokenId it), ReadSkullOfLetter (letterTokenId it)])"
  by (auto simp: hydrateTry_def Let_def split: option.splits)

text \<open>
  Claim C2. The frame holds, but it does not keep a failing item from being shown
  mintable: a letter just loaded from the proxy starts with \<open>usedLetter = False\<close>,
  \<open>skullTokenId = 0\<close> and \<open>loading = True\<close>, so it is not mintable before the
  reconciliation; when its reads throw, only the loading flag is cleared, and the item is
  then counted mintable and its mint button is enabled. Evaluated on letter 7, first with
  a chain on which every read rejects, then with a chain that reports the letter used and
  skull 5 minted but rejects the owner read.
\<close>

theorem hydrateItem_failure_opens_mint:
  "\<not> mintable (freshItem 7 None None) \<and>
   fst (hydrateTry downChain (freshItem 7 None None)) = None \<and>
   fst (hydrateItem downChain (freshItem 7 None None)) = (freshItem 7 None None)\<lparr>loading := False\<rparr> \<and>
   mintable (fst (hydrateItem downChain (freshItem 7 None None))) \<and>
   mintableCount [fst (hydrateItem downChain (freshItem 7 None None))] = 1 \<and>
   \<not> disableMint False False (fst (hydrateItem downChain (freshItem 7 None None))) \<and>
   usedLetterToken halfChain 7 = Some True \<and> skullOfLetter halfChain 7 = Some 5 \<and>
   fst (hydrateTry halfChain (freshItem 7 None None)) = None \<and>
   mintable (fst (hydrateItem halfChain (freshItem 7 None None))) \<and>
   \<not> disableMint False False (fst (hydrateItem halfChain (freshItem 7 None None)))"
  by (simp add: hydrateItem_def hydrateTry_def downChain_def halfChain_def freshItem_def
        mintable_def mintableCount_def disableMint_def minted_def)

theorem hydrateItem_failure_opens_mint_witness:
  "\<not> mintable (freshItem 7 None None) \<and>
   mintable (fst (hydrateItem downChain (freshItem 7 None None)))"
  using hydrateItem_failure_opens_mint by blast

subsection \<open>Items beyond the first 80\<close>

lemma lettersRead_append: "lettersRead (xs @ ys) = lettersRead xs @ lettersRead ys"
  by (induction xs rule: lettersRead.induct) auto

lemma lettersRead_hydrateItem: "lettersRead (snd (hydrateItem chain it)) = [letterTokenId it]"
  by (auto simp: hydrateItem_def hydrateTry_def Let_def split: option.splits)

lemma lettersRead_concat:
  "lettersRead (concat (map (snd \<circ> hydrateItem chain) xs)) = map letterTokenId xs"
  by (induction xs) (auto simp: lettersRead_append lettersRead_hydrateItem)

text \<open>
  Claim C9. When \<open>hydrateSkulls\<close> is given more than 80 items, the new state is the
  reconciled first 80 items followed by the old state's entries from index 80 on, each
  with its loading flag on; the reads issued are exactly the reads of the first 80
  items' reconciliations, in item order, and no other read of any kind. So every entry
  at index 80 or beyond is the old entry with loading on, is not counted mintable and has
  its mint button disabled whatever the transaction state, and the mintable count is
  that of the first 80 entries.
\<close>

theorem hydrateSkulls_tail_loading:
  assumes "80 < length current" and "80 \<le> i" and "i < length items"
  shows "fst (hydrateSkulls (Some chain) items current) =
           map (\<lambda>x. fst (hydrateItem chain x)) (take 80 current)
           @ drop 80 (map (\<lambda>x. x\<lparr>loading := True\<rparr>) items) \<and>
         snd (hydrateSkulls (Some chain) items current) =
           concat (map (\<lambda>x. snd (hydrateItem chain x)) (take 80 current)) \<and>
         fst (hydrateSkulls (Some chain) items current) ! i = (items ! i)\<lparr>loading := True\<rparr> \<and>
         \<not> mintable (fst (hydrateSkulls (Some chain) items current) ! i) \<and>
         disableMint isPending isConfirming (fst (hydrateSkulls (Some chain) items current) ! i) \<and>
         mintableCount (fst (hydrateSkulls (Some chain) items current)) =
           mintableCount (take 80 (fst (hydrateSkulls (Some chain) items current))) \<and>
         lettersRead (snd (hydrateSkulls (Some chain) items current)) =
           map letterTokenId (take 80 current)"
proof -
  let ?res = "fst (hydrateSkulls (Some chain) items current)"
  let ?nxt = "map (\<lambda>x. fst (hydrateItem chain x)) (take 80 current)"
  let ?marked = "map (\<lambda>x. x\<lparr>loading := True\<rparr>) items"
  have ne: "length current \<noteq> 0" using assms(1) by auto
  have len: "length ?nxt = 80" using assms(1) by simp
  have res: "?res = ?nxt @ drop 80 ?marked"
    using ne len by (simp add: hydrateSkulls_def Let_def comp_def)
  have lg: "snd (hydrateSkulls (Some chain) items current) =
            concat (map (\<lambda>x. snd (hydrateItem chain x)) (take 80 current))"
    using ne by (simp add: hydrateSkulls_def Let_def comp_def)
  have at: "?res ! i = (items ! i)\<lparr>loading := True\<rparr>"
    using assms len by (simp add: res nth_append)
  have tail: "filter mintable (drop 80 ?marked) = []"
    by (auto simp: filter_empty_conv mintable_def dest!: in_set_dropD)
  have tk: "take 80 ?res = ?nxt" using len by (simp add: res)
  have cnt: "mintableCount ?res = mintableCount (take 80 ?res)"
    unfolding tk unfolding res mintableCount_def using tail by simp
  have rd: "lettersRead (snd (hydrateSkulls (Some chain) items current)) =
            map letterTokenId (take 80 current)"
    using lettersRead_concat [of chain "take 80 current"] by (simp add: lg comp_def)
  have nm: "\<not> mintable (?res ! i)" "disableMint isPending isConfirming (?res ! i)"
    by (simp_all add: at mintable_def disableMint_def)
  from res lg at nm cnt rd show ?thesis by blast
qed

theorem hydrateSkulls_tail_loading_witness:
  "80 < length manyLetters \<and>
   snd (hydrateSkulls (Some downChain) manyLetters manyLetters) =
     concat (map (\<lambda>x. snd (hydrateItem downChain x)) (take 80 manyLetters)) \<and>
   fst (hydrateSkulls (Some downChain) manyLetters manyLetters) ! 80 = freshItem 81 None None \<and>
   \<not> mintable (fst (hydrateSkulls (Some downChain) manyLetters manyLetters) ! 80) \<and>
   lettersRead (snd (hydrateSkulls (Some downChain) manyLetters manyLetters)) = map int [1..<81]"
proof -
  have h1: "80 < length manyLetters" by (simp add: manyLetters_def)
  have h2: "(80::nat) \<le> 80" by simp
  have e: "(manyLetters ! 80)\<lparr>loading := True\<rparr> = freshItem 81 None None"
    by (simp add: manyLetters_def freshItem_def)
  have t: "map letterTokenId (take 80 manyLetters) = map int [1..<81]"
    by (simp add: manyLetters_def take_map freshItem_def)
  note th = hydrateSkulls_tail_loading [OF h1 h2 h1, of downChain False False]
  from th have a: "snd (hydrateSkulls (Some downChain) manyLetters manyLetters) =
     concat (map (\<lambda>x. snd (hydrateItem downChain x)) (take 80 manyLetters))" by blast
  from th have b: "fst (hydrateSkulls (Some downChain) manyLetters manyLetters) ! 80 =
     (manyLetters ! 80)\<lparr>loading := True\<rparr>" by blast
  from th have c: "\<not> mintable (fst (hydrateSkulls (Some downChain) manyLetters manyLetters) ! 80)"
    by blast
  from th have d: "lettersRead (snd (hydrateSkulls (Some downChain) manyLetters manyLetters)) =
     map letterTokenId (take 80 manyLetters)" by blast
  from h1 a b [unfolded e] c d [unfolded t] show ?thesis by blast
qed

section \<open>Properties of the token-URI decoder\<close>

subsection \<open>The prefix gate\<close>

text \<open>
  Claim C3. For every input that does not start with the exact prefix
  \<open>data:application/json;base64,\<close> the decoder returns \<open>null\<close> (\<open>Inr None\<close>); it does
  not throw, whatever \<open>JSON.parse\<close> would do. Both copies of the function (gallery page and
  detail page) have the same text and share this model.
\<close>

theorem parseTokenUriToSvg_prefix_gate:
  assumes "\<not> startsWith tokenUri (js ''data:application/json;base64,'')"
  shows "parseTokenUriToSvg JSON_parse tokenUri = Inr None"
  using assms by (simp add: parseTokenUriToSvg_def Let_def)

theorem parseTokenUriToSvg_prefix_gate_witness:
  "\<not> startsWith (js ''ipfs://QmSkull/1'') (js ''data:application/json;base64,'') \<and>
   parseTokenUriToSvg (\<lambda>s. Inl SyntaxError) (js ''ipfs://QmSkull/1'') = Inr None"
proof -
  have h: "\<not> startsWith (js ''ipfs://QmSkull/1'') (js ''data:application/json;base64,'')"
    by (simp add: startsWith_def js_def)
  from parseTokenUriToSvg_prefix_gate [OF h] h show ?thesis by blast
qed

subsection \<open>Base64: \<open>atob\<close> inverts the standard encoding\<close>

lemma divmod_unique_nat:
  fixes q r m :: nat
  assumes "r < m"
  shows "(q * m + r) div m = q" and "(q * m + r) mod m = r"
  using assms by simp_all

lemma sextets_group:
  fixes a b c :: nat
  shows "(((a div 4) * 64 + ((a mod 4) * 16 + b div 16)) * 64 + ((b mod 16) * 4 + c div 64)) * 64 + c mod 64
         = a * 65536 + b * 256 + c"
proof -
  define qa ra qb rb qc rc where "qa = a div 4" and "ra = a mod 4" and "qb = b div 16"
    and "rb = b mod 16" and "qc = c div 64" and "rc = c mod 64"
  have a: "a = 4 * qa + ra" and b: "b = 16 * qb + rb" and c: "c = 64 * qc + rc"
    by (simp_all add: qa_def ra_def qb_def rb_def qc_def rc_def)
  have "((qa * 64 + (ra * 16 + qb)) * 64 + (rb * 4 + qc)) * 64 + rc = a * 65536 + b * 256 + c"
    unfolding a b c by simp
  then show ?thesis by (simp only: qa_def ra_def qb_def rb_def qc_def rc_def)
qed

lemma sextets_pair:
  fixes a b :: nat
  shows "((a div 4 * 64 + (a mod 4 * 16 + b div 16)) * 64 + b mod 16 * 4) div 4 = a * 256 + b"
proof -
  define qa ra qb rb where "qa = a div 4" and "ra = a mod 4" and "qb = b div 16" and "rb = b mod 16"
  have a: "a = 4 * qa + ra" and b: "b = 16 * qb + rb" by (simp_all add: qa_def ra_def qb_def rb_def)
  have "(qa * 64 + (ra * 16 + qb)) * 64 + rb * 4 = 4 * (a * 256 + b)"
    unfolding a b by simp
  then have "((qa * 64 + (ra * 16 + qb)) * 64 + rb * 4) div 4 = a * 256 + b"
    by simp
  then show ?thesis by (simp only: qa_def ra_def qb_def rb_def)
qed

lemma sextets_single:
  fixes a :: nat
  shows "(a div 4 * 64 + a mod 4 * 16) div 16 = a"
proof -
  define qa ra where "qa = a div 4" and "ra = a mod 4"
  have a: "a = 4 * qa + ra" by (simp add: qa_def ra_def)
  have "qa * 64 + ra * 16 = 16 * a" unfolding a by simp
  then have "(qa * 64 + ra * 16) div 16 = a" by simp
  then show ?thesis by (simp only: qa_def ra_def)
qed

lemma group_bytes:
  assumes "a < 256" "b < 256" "c < (256::nat)"
  shows "(a * 65536 + b * 256 + c) div 65536 = a" "(a * 65536 + b * 256 + c) div 256 mod 256 = b"
        "(a * 65536 + b * 256 + c) mod 256 = c"
proof -
  have lo: "b * 256 + c < 65536" using assms by linarith
  have "(a * 65536 + (b * 256 + c)) div 65536 = a" using lo by (rule divmod_unique_nat(1))
  then show "(a * 65536 + b * 256 + c) div 65536 = a" by (simp only: add.assoc)
  have e: "a * 65536 + b * 256 + c = (a * 256 + b) * 256 + c" by simp
  have d: "((a * 256 + b) * 256 + c) div 256 = a * 256 + b"
    using assms(3) by (rule divmod_unique_nat(1))
  have m: "(a * 256 + b) mod 256 = b" using assms(2) by (rule divmod_unique_nat(2))
  show "(a * 65536 + b * 256 + c) div 256 mod 256 = b" by (simp only: e d m)
  have "((a * 256 + b) * 256 + c) mod 256 = c" using assms(3) by (rule divmod_unique_nat(2))
  then show "(a * 65536 + b * 256 + c) mod 256 = c" by (simp only: e)
qed

lemma pair_bytes:
  assumes "b < (256::nat)"
  shows "(a * 256 + b) div 256 = a" "(a * 256 + b) mod 256 = b"
  using assms by (rule divmod_unique_nat)+

lemma sextet_bounds:
  fixes a b c :: nat
  assumes "a < 256" "b < 256" "c < 256"
  shows "a div 4 < 64" "a mod 4 * 16 + b div 16 < 64" "b mod 16 * 4 + c div 64 < 64"
        "c mod 64 < 64" "a mod 4 * 16 < 64" "b mod 16 * 4 < 64"
proof -
  show "a div 4 < 64" using assms by simp
  have "a mod 4 < 4" "b mod 16 < 16" by simp_all
  moreover have "b div 16 < 16" "c div 64 < 4" using assms by simp_all
  ultimately show "a mod 4 * 16 + b div 16 < 64" "b mod 16 * 4 + c div 64 < 64"
     "a mod 4 * 16 < 64" "b mod 16 * 4 < 64"
    by linarith+
  show "c mod 64 < 64" by simp
qed

lemma sextetsToBytes_group:
  assumes lt: "a < 256" "b < 256" "c < (256::nat)"
  shows "sextetsToBytes (bytesToSextets (a # b # c # rest)) =
         a # b # c # sextetsToBytes (bytesToSextets rest)"
proof -
  have "sextetsToBytes (bytesToSextets (a # b # c # rest)) =
        [(a * 65536 + b * 256 + c) div 65536, (a * 65536 + b * 256 + c) div 256 mod 256,
         (a * 65536 + b * 256 + c) mod 256] @ sextetsToBytes (bytesToSextets rest)"
    apply (subst bytesToSextets.simps(1))
    apply (simp only: append_Cons append_Nil)
    apply (subst sextetsToBytes.simps(1))
    apply (simp only: Let_def sextets_group append_Cons append_Nil)
    done
  then show ?thesis
    by (simp only: group_bytes [OF lt] append_Cons append_Nil)
qed

lemma sextetsToBytes_bytesToSextets:
  "\<forall>b \<in> set bytes. b < 256 \<Longrightarrow> sextetsToBytes (bytesToSextets bytes) = bytes"
proof (induction bytes rule: bytesToSextets.induct)
  case (1 a b c rest)
  then have lt: "a < 256" "b < 256" "c < 256" by simp_all
  from 1 have IH: "sextetsToBytes (bytesToSextets rest) = rest" by simp
  show ?case by (simp only: sextetsToBytes_group [OF lt] IH)
next
  case (2 a b)
  then have lt: "b < 256" by simp
  show ?case
    by (simp only: bytesToSextets.simps sextetsToBytes.simps Let_def sextets_pair pair_bytes [OF lt])
next
  case (3 a)
  show ?case by (simp only: bytesToSextets.simps sextetsToBytes.simps sextets_single)
next
  case 4
  show ?case by simp
qed

lemma bytesToSextets_lt:
  "\<forall>b \<in> set bytes. b < 256 \<Longrightarrow> \<forall>v \<in> set (bytesToSextets bytes). v < 64"
proof (induction bytes rule: bytesToSextets.induct)
  case (1 a b c rest)
  then have lt: "a < 256" "b < 256" "c < 256" by simp_all
  from 1 have IH: "\<forall>v \<in> set (bytesToSextets rest). v < 64" by simp
  show ?case using IH sextet_bounds [OF lt] by simp
next
  case (2 a b)
  then have lt: "a < 256" "b < 256" by simp_all
  show ?case using sextet_bounds [OF lt lt(1)] by simp
next
  case (3 a)
  then have lt: "a < 256" by simp
  show ?case using sextet_bounds [OF lt lt lt] by simp
qed simp

lemma length_bytesToSextets_mod4:
  "length (bytesToSextets bytes) mod 4 \<noteq> 1"
  by (induction bytes rule: bytesToSextets.induct) simp_all

lemma mod3_Suc3: "Suc (Suc (Suc n)) mod 3 = n mod 3"
  by presburger

lemma length_bytesToSextets:
  "(length (bytesToSextets bytes) + (3 - length bytes mod 3) mod 3) mod 4 = 0"
  by (induction bytes rule: bytesToSextets.induct) (simp_all add: mod3_Suc3)

lemma base64Alphabet_length: "length base64Alphabet = 64"
  by (simp add: base64Alphabet_def js_def)

lemma base64Alphabet_distinct: "distinct base64Alphabet"
  by (simp add: base64Alphabet_def js_def)

lemma base64Alphabet_plain: "\<forall>c \<in> set base64Alphabet. c \<noteq> 61 \<and> \<not> isAsciiWhitespace c"
  by (simp add: base64Alphabet_def js_def isAsciiWhitespace_def)

lemma indexOf_nth: "distinct xs \<Longrightarrow> n < length xs \<Longrightarrow> indexOf (xs ! n) xs = Some n"
proof (induction xs arbitrary: n)
  case Nil
  then show ?case by simp
next
  case (Cons x xs)
  show ?case
  proof (cases n)
    case 0
    then show ?thesis by simp
  next
    case (Suc m)
    with Cons.prems have "xs ! m \<in> set xs" "x \<notin> set xs" by simp_all
    then have "xs ! m \<noteq> x" by auto
    with Cons Suc show ?thesis by simp
  qed
qed

lemma base64Value_base64Char: "v < 64 \<Longrightarrow> base64Value (base64Char v) = Some v"
  by (simp add: base64Value_def base64Char_def indexOf_nth base64Alphabet_distinct base64Alphabet_length)

lemma base64Char_plain: "v < 64 \<Longrightarrow> base64Char v \<noteq> 61 \<and> \<not> isAsciiWhitespace (base64Char v)"
  using base64Alphabet_plain nth_mem [of v base64Alphabet]
  by (simp add: base64Char_def base64Alphabet_length)

lemma those_base64Value:
  "\<forall>v \<in> set vs. v < 64 \<Longrightarrow> those (map base64Value (map base64Char vs)) = Some vs"
  by (induction vs) (simp_all add: base64Value_base64Char)

lemma stripPadding_padded:
  assumes "61 \<notin> set m" and "k \<le> 2"
  shows "stripPadding (m @ replicate k 61) = m"
proof -
  have lastm: "m \<noteq> [] \<Longrightarrow> last m \<noteq> 61" using assms(1) last_in_set by metis
  consider "k = 0" | "k = 1" | "k = 2" using assms(2) by linarith
  then show ?thesis
  proof cases
    case 1
    then show ?thesis using lastm by (cases "m = []") (auto simp: stripPadding_def)
  next
    case 2
    then show ?thesis using lastm by (cases "m = []") (auto simp: stripPadding_def butlast_append)
  next
    case 3
    then have "replicate k (61::nat) = [61, 61]" by (simp add: numeral_2_eq_2)
    then show ?thesis by (simp add: stripPadding_def butlast_append)
  qed
qed

lemma atob_base64Encode:
  assumes "\<forall>b \<in> set bytes. b < 256"
  shows "atob (base64Encode bytes) = Inr bytes"
proof -
  let ?sx = "bytesToSextets bytes"
  let ?m = "map base64Char ?sx"
  let ?k = "(3 - length bytes mod 3) mod 3"
  have lt: "\<forall>v \<in> set ?sx. v < 64" using assms by (rule bytesToSextets_lt)
  have plain: "\<forall>c \<in> set ?m. c \<noteq> 61 \<and> \<not> isAsciiWhitespace c"
    using lt base64Char_plain by auto
  have nows: "filter (\<lambda>c. \<not> isAsciiWhitespace c) (base64Encode bytes) = base64Encode bytes"
    using plain by (auto simp: base64Encode_def isAsciiWhitespace_def)
  have len: "length (base64Encode bytes) mod 4 = 0"
    using length_bytesToSextets [of bytes] by (simp add: base64Encode_def)
  have no61: "61 \<notin> set ?m" using plain by auto
  have strip: "stripPadding (base64Encode bytes) = ?m"
    unfolding base64Encode_def by (rule stripPadding_padded [OF no61]) simp
  have l1: "length ?m mod 4 \<noteq> 1" using length_bytesToSextets_mod4 [of bytes] by simp
  have th: "those (map base64Value ?m) = Some ?sx" using lt by (rule those_base64Value)
  show ?thesis
    unfolding atob_def nows
    using len l1 th strip sextetsToBytes_bytesToSextets [OF assms]
    by (simp add: Let_def)
qed

subsection \<open>Percent escapes of a binary string\<close>

declare toString16.simps [simp del]

lemma Array_from_bytes:
  "\<forall>u \<in> set bin. u < 256 \<Longrightarrow> Array_from bin = map (\<lambda>u. [u]) bin"
  by (induction bin rule: Array_from.induct) auto

lemma toString16_byte:
  assumes "u < 256"
  shows "padStart (toString16 u) 2 48 = [hexDigit (u div 16), hexDigit (u mod 16)]"
proof (cases "u < 16")
  case True
  then show ?thesis by (simp add: toString16.simps [of u] padStart_def hexDigit_def)
next
  case False
  have "u div 16 < 16" using assms by simp
  then have "toString16 (u div 16) = [hexDigit (u div 16)]"
    by (simp add: toString16.simps [of "u div 16"])
  with False show ?thesis by (simp add: toString16.simps [of u] padStart_def)
qed

lemma percentEncoded_Cons:
  assumes "u < 256" and "\<forall>v \<in> set bin. v < 256"
  shows "percentEncoded (u # bin) = 37 # hexDigit (u div 16) # hexDigit (u mod 16) # percentEncoded bin"
  using assms by (simp add: percentEncoded_def Array_from_bytes percentEscape_def toString16_byte)

lemma percentEncoded_Nil: "percentEncoded [] = []"
  by (simp add: percentEncoded_def)

lemma percentEncoded_bytes:
  "\<forall>v \<in> set bin. v < 256 \<Longrightarrow>
   percentEncoded bin = concat (map (\<lambda>b. [37, hexDigit (b div 16), hexDigit (b mod 16)]) bin)"
proof (induction bin)
  case Nil
  show ?case by (simp add: percentEncoded_Nil)
next
  case (Cons b bin)
  then have b: "b < 256" and bin: "\<forall>v \<in> set bin. v < 256" by simp_all
  from Cons.IH [OF bin] show ?case by (simp add: percentEncoded_Cons [OF b bin])
qed

lemma percentEncoded_append:
  "\<forall>v \<in> set xs. v < 256 \<Longrightarrow> \<forall>v \<in> set ys. v < 256 \<Longrightarrow>
   percentEncoded (xs @ ys) = percentEncoded xs @ percentEncoded ys"
proof -
  assume xs: "\<forall>v \<in> set xs. v < 256" and ys: "\<forall>v \<in> set ys. v < 256"
  then have "\<forall>v \<in> set (xs @ ys). v < 256" by auto
  then have "Array_from (xs @ ys) = map (\<lambda>u. [u]) (xs @ ys)" by (rule Array_from_bytes)
  then show ?thesis by (simp add: percentEncoded_def Array_from_bytes [OF xs] Array_from_bytes [OF ys])
qed

lemma hexValue_hexDigit: "d < 16 \<Longrightarrow> hexValue (hexDigit d) = Some d"
  by (simp add: hexValue_def hexDigit_def)

lemma ParseHexOctet_byte:
  assumes "u < 256"
  shows "ParseHexOctet (hexDigit (u div 16) # hexDigit (u mod 16) # rest) = Some u"
proof -
  have "u div 16 < 16" "u mod 16 < 16" using assms by simp_all
  then show ?thesis by (simp add: hexValue_hexDigit)
qed

declare ParseHexOctet.simps [simp del]

lemma drop2_Cons: "drop 2 (a # b # xs) = xs"
  by (simp add: numeral_2_eq_2)

lemma length_percentEncoded:
  "\<forall>v \<in> set bs. v < 256 \<Longrightarrow> length (percentEncoded bs) = 3 * length bs"
proof (induction bs)
  case Nil
  show ?case by (simp add: percentEncoded_Nil)
next
  case (Cons b bs)
  then have b: "b < 256" and bs: "\<forall>v \<in> set bs. v < 256" by simp_all
  from Cons.IH [OF bs] show ?case by (simp add: percentEncoded_Cons [OF b bs])
qed

lemma drop_percentEncoded:
  "\<forall>v \<in> set bs. v < 256 \<Longrightarrow> drop (3 * length bs) (percentEncoded bs @ rest) = rest"
  by (simp add: length_percentEncoded)

lemma continuationOctets_percentEncoded:
  "\<forall>v \<in> set bs. v < 256 \<Longrightarrow>
   continuationOctets (length bs) (percentEncoded bs @ rest) = Some bs"
proof (induction bs)
  case Nil
  show ?case by (simp add: percentEncoded_Nil)
next
  case (Cons b bs)
  then have b: "b < 256" and bs: "\<forall>v \<in> set bs. v < 256" by simp_all
  from Cons.IH [OF bs] show ?case
    by (simp add: percentEncoded_Cons [OF b bs] ParseHexOctet_byte [OF b] drop2_Cons)
qed

lemma decode_lead:
  assumes "u < 256"
  shows "decodeURIComponent (37 # hexDigit (u div 16) # hexDigit (u mod 16) # rest) =
     (if leadingOnes u = 0 then prepend [u] (decodeURIComponent rest)
      else if leadingOnes u = 1 \<or> 4 < leadingOnes u then Inl URIError
      else (case continuationOctets (leadingOnes u - 1) rest of
              None \<Rightarrow> Inl URIError
            | Some octets \<Rightarrow>
                (case utf8CodePoint (u # octets) of
                   None \<Rightarrow> Inl URIError
                 | Some v \<Rightarrow>
                     prepend (UTF16EncodeCodePoint v)
                       (decodeURIComponent (drop (3 * (leadingOnes u - 1)) rest)))))"
  by (simp add: ParseHexOctet_byte [OF assms] drop2_Cons cong: option.case_cong)

subsection \<open>UTF-8 octets of a scalar value\<close>

lemma low6: "(128 + x mod 64) mod 64 = (x mod 64 :: nat)"
proof -
  have "128 + x mod 64 = 2 * 64 + x mod 64" by simp
  also have "\<dots> mod 64 = x mod 64" by (rule divmod_unique_nat(2)) simp
  finally show ?thesis .
qed

lemma cont_byte: "isContinuation (128 + x mod 64)"
proof -
  have "x mod 64 < 64" by simp
  then show ?thesis unfolding isContinuation_def by linarith
qed

lemma lead2:
  assumes "cp < (2048::nat)"
  shows "(192 + cp div 64) mod 32 = cp div 64"
proof -
  have q: "cp div 64 < 32" using assms by simp
  have "192 + cp div 64 = 6 * 32 + cp div 64" by simp
  also have "\<dots> mod 32 = cp div 64" using q by (rule divmod_unique_nat(2))
  finally show ?thesis .
qed

lemma lead3:
  assumes "cp < (65536::nat)"
  shows "(224 + cp div 4096) mod 16 = cp div 4096"
proof -
  have q: "cp div 4096 < 16" using assms by simp
  have "224 + cp div 4096 = 14 * 16 + cp div 4096" by simp
  also have "\<dots> mod 16 = cp div 4096" using q by (rule divmod_unique_nat(2))
  finally show ?thesis .
qed

lemma lead4:
  assumes "cp \<le> (1114111::nat)"
  shows "(240 + cp div 262144) mod 8 = cp div 262144"
proof -
  have q: "cp div 262144 < 8" using assms by simp
  have "240 + cp div 262144 = 30 * 8 + cp div 262144" by simp
  also have "\<dots> mod 8 = cp div 262144" using q by (rule divmod_unique_nat(2))
  finally show ?thesis .
qed

lemma join2: "cp div 64 * 64 + cp mod 64 = (cp::nat)"
  by simp

lemma join3: "(cp div 4096 * 64 + cp div 64 mod 64) * 64 + cp mod 64 = (cp::nat)"
proof -
  have "cp div 4096 = cp div 64 div 64" by (simp add: div_mult2_eq)
  then have "cp div 4096 * 64 + cp div 64 mod 64 = cp div 64" by simp
  then show ?thesis by simp
qed

lemma join4:
  "((cp div 262144 * 64 + cp div 4096 mod 64) * 64 + cp div 64 mod 64) * 64 + cp mod 64 = (cp::nat)"
proof -
  have "cp div 262144 = cp div 4096 div 64" by (simp add: div_mult2_eq)
  then have "cp div 262144 * 64 + cp div 4096 mod 64 = cp div 4096" by simp
  then show ?thesis by (simp only: join3)
qed

lemma utf8Encode_bytes:
  assumes "cp \<le> 1114111"
  shows "\<forall>b \<in> set (utf8Encode cp). b < 256"
proof -
  have m: "cp mod 64 < 64" "cp div 64 mod 64 < 64" "cp div 4096 mod 64 < 64" by simp_all
  have q4: "cp div 262144 < 8" using assms by simp
  have q3: "cp < 65536 \<Longrightarrow> cp div 4096 < 16" by simp
  have q2: "cp < 2048 \<Longrightarrow> cp div 64 < 32" by simp
  show ?thesis unfolding utf8Encode_def using m q4 q3 q2 by auto
qed

subsection \<open>Decoding the escapes of UTF-8 text\<close>

lemma decode_after_lead:
  assumes u: "u < 256" and bs: "\<forall>v \<in> set bs. v < 256"
      and n: "leadingOnes u = Suc (length bs)" and len: "1 \<le> length bs" "length bs \<le> 3"
      and v: "utf8CodePoint (u # bs) = Some cp"
  shows "decodeURIComponent (percentEncoded (u # bs) @ rest) =
         prepend (UTF16EncodeCodePoint cp) (decodeURIComponent rest)"
proof -
  have m: "leadingOnes u - 1 = length bs" using n by simp
  have l: "leadingOnes u \<noteq> 0" "\<not> (leadingOnes u = 1 \<or> 4 < leadingOnes u)"
    using n len by linarith+
  have "decodeURIComponent (percentEncoded (u # bs) @ rest) =
        decodeURIComponent (37 # hexDigit (u div 16) # hexDigit (u mod 16) # (percentEncoded bs @ rest))"
    by (simp add: percentEncoded_Cons [OF u bs])
  also have "\<dots> = prepend (UTF16EncodeCodePoint cp) (decodeURIComponent rest)"
    unfolding decode_lead [OF u] m using l
    by (simp add: continuationOctets_percentEncoded [OF bs] length_percentEncoded [OF bs] v)
  finally show ?thesis .
qed

lemma decode_ascii:
  assumes "cp < 128"
  shows "decodeURIComponent (percentEncoded (utf8Encode cp) @ rest) =
         prepend (UTF16EncodeCodePoint cp) (decodeURIComponent rest)"
proof -
  have u: "cp < 256" using assms by simp
  have e: "\<forall>v \<in> set ([]::nat list). v < 256" by simp
  have "decodeURIComponent (percentEncoded [cp] @ rest) =
        decodeURIComponent (37 # hexDigit (cp div 16) # hexDigit (cp mod 16) # rest)"
    by (simp add: percentEncoded_Cons [OF u e] percentEncoded_Nil)
  also have "\<dots> = prepend [cp] (decodeURIComponent rest)"
    unfolding decode_lead [OF u] using assms by (simp add: leadingOnes_def)
  finally show ?thesis using assms by (simp add: utf8Encode_def UTF16EncodeCodePoint_def)
qed

lemma decode_two:
  assumes lo: "128 \<le> cp" and hi: "cp < 2048"
  shows "decodeURIComponent (percentEncoded (utf8Encode cp) @ rest) =
         prepend (UTF16EncodeCodePoint cp) (decodeURIComponent rest)"
proof -
  let ?u = "192 + cp div 64" and ?bs = "[128 + cp mod 64]"
  have q: "cp div 64 < 32" using hi by simp
  have u: "?u < 256" using q by linarith
  have bs: "\<forall>v \<in> set ?bs. v < 256"
  proof -
    have "cp mod 64 < 64" by simp
    then have "128 + cp mod 64 < 256" by linarith
    then show ?thesis by simp
  qed
  have n: "leadingOnes ?u = Suc (length ?bs)"
    using q by (simp add: leadingOnes_def)
  have "utf8CodePoint (?u # ?bs) =
        (if isContinuation (128 + cp mod 64) \<and> 128 \<le> cp then Some cp else None)"
    by (simp only: utf8CodePoint.simps Let_def lead2 [OF hi] low6 join2)
  then have v: "utf8CodePoint (?u # ?bs) = Some cp"
    using lo by (simp only: cont_byte) simp
  have "utf8Encode cp = ?u # ?bs" using lo hi by (simp add: utf8Encode_def)
  then show ?thesis using decode_after_lead [OF u bs n _ _ v, of rest] by simp
qed

lemma decode_three:
  assumes lo: "2048 \<le> cp" and hi: "cp < 65536" and ns: "\<not> (55296 \<le> cp \<and> cp < 57344)"
  shows "decodeURIComponent (percentEncoded (utf8Encode cp) @ rest) =
         prepend (UTF16EncodeCodePoint cp) (decodeURIComponent rest)"
proof -
  let ?u = "224 + cp div 4096" and ?bs = "[128 + cp div 64 mod 64, 128 + cp mod 64]"
  have q: "cp div 4096 < 16" using hi by simp
  have u: "?u < 256" using q by linarith
  have bs: "\<forall>v \<in> set ?bs. v < 256"
  proof -
    have "cp mod 64 < 64" "cp div 64 mod 64 < 64" by simp_all
    then have "128 + cp mod 64 < 256" "128 + cp div 64 mod 64 < 256" by linarith+
    then show ?thesis by simp
  qed
  have n: "leadingOnes ?u = Suc (length ?bs)"
    using q by (simp add: leadingOnes_def)
  have "utf8CodePoint (?u # ?bs) =
        (if isContinuation (128 + cp div 64 mod 64) \<and> isContinuation (128 + cp mod 64) \<and>
            2048 \<le> cp \<and> \<not> (55296 \<le> cp \<and> cp < 57344) then Some cp else None)"
    by (simp only: utf8CodePoint.simps Let_def lead3 [OF hi] low6 join3)
  then have v: "utf8CodePoint (?u # ?bs) = Some cp"
    using lo ns by (simp only: cont_byte) simp
  have "utf8Encode cp = ?u # ?bs" using lo hi by (simp add: utf8Encode_def)
  then show ?thesis using decode_after_lead [OF u bs n _ _ v, of rest] by simp
qed

lemma decode_four:
  assumes lo: "65536 \<le> cp" and hi: "cp \<le> 1114111"
  shows "decodeURIComponent (percentEncoded (utf8Encode cp) @ rest) =
         prepend (UTF16EncodeCodePoint cp) (decodeURIComponent rest)"
proof -
  let ?u = "240 + cp div 262144"
  let ?bs = "[128 + cp div 4096 mod 64, 128 + cp div 64 mod 64, 128 + cp mod 64]"
  have q: "cp div 262144 < 8" using hi by simp
  have u: "?u < 256" using q by linarith
  have bs: "\<forall>v \<in> set ?bs. v < 256"
  proof -
    have "cp mod 64 < 64" "cp div 64 mod 64 < 64" "cp div 4096 mod 64 < 64" by simp_all
    then have "128 + cp mod 64 < 256" "128 + cp div 64 mod 64 < 256"
      "128 + cp div 4096 mod 64 < 256" by linarith+
    then show ?thesis by simp
  qed
  have n: "leadingOnes ?u = Suc (length ?bs)"
    using q by (simp add: leadingOnes_def)
  have "utf8CodePoint (?u # ?bs) =
        (if isContinuation (128 + cp div 4096 mod 64) \<and> isContinuation (128 + cp div 64 mod 64) \<and>
            isContinuation (128 + cp mod 64) \<and> 65536 \<le> cp \<and> cp \<le> 1114111
         then Some cp else None)"
    by (simp only: utf8CodePoint.simps Let_def lead4 [OF hi] low6 join4)
  then have v: "utf8CodePoint (?u # ?bs) = Some cp"
    using lo hi by (simp only: cont_byte) simp
  have "utf8Encode cp = ?u # ?bs" using lo hi by (simp add: utf8Encode_def)
  then show ?thesis using decode_after_lead [OF u bs n _ _ v, of rest] by simp
qed

lemma decode_code_point:
  assumes "isScalarValue cp"
  shows "decodeURIComponent (percentEncoded (utf8Encode cp) @ rest) =
         prepend (UTF16EncodeCodePoint cp) (decodeURIComponent rest)"
proof -
  consider "cp < 128" | "128 \<le> cp" "cp < 2048"
    | "2048 \<le> cp" "cp < 65536" "\<not> (55296 \<le> cp \<and> cp < 57344)"
    | "65536 \<le> cp" "cp \<le> 1114111"
    using assms unfolding isScalarValue_def by linarith
  then show ?thesis
    by cases (rule decode_ascii decode_two decode_three decode_four; assumption)+
qed

lemma isScalarValue_le: "isScalarValue cp \<Longrightarrow> cp \<le> 1114111"
  by (auto simp: isScalarValue_def)

lemma utf8_bytes: "\<forall>cp \<in> set cps. isScalarValue cp \<Longrightarrow> \<forall>b \<in> set (utf8 cps). b < 256"
  using utf8Encode_bytes isScalarValue_le by (auto simp: utf8_def)

lemma decode_utf8:
  "\<forall>cp \<in> set cps. isScalarValue cp \<Longrightarrow>
   decodeURIComponent (percentEncoded (utf8 cps)) = Inr (utf16 cps)"
proof (induction cps)
  case Nil
  show ?case by (simp add: utf8_def utf16_def percentEncoded_Nil)
next
  case (Cons cp cps)
  then have cp: "isScalarValue cp" and cps: "\<forall>c \<in> set cps. isScalarValue c" by simp_all
  have b1: "\<forall>b \<in> set (utf8Encode cp). b < 256"
    using utf8Encode_bytes isScalarValue_le [OF cp] by blast
  have b2: "\<forall>b \<in> set (utf8 cps). b < 256" using cps by (rule utf8_bytes)
  have "percentEncoded (utf8 (cp # cps)) = percentEncoded (utf8Encode cp) @ percentEncoded (utf8 cps)"
    using percentEncoded_append [OF b1 b2] by (simp add: utf8_def)
  then show ?case
    using decode_code_point [OF cp, of "percentEncoded (utf8 cps)"] Cons.IH [OF cps]
    by (simp add: utf16_def)
qed


text \<open>
  Claim C4. For every Unicode string, given as its sequence of scalar values,
  \<open>decodeBase64ToString\<close> applied to the standard base64 encoding of its UTF-8 bytes
  returns the string itself (in UTF-16, as JavaScript holds it). On the way, \<open>atob\<close>
  gives the UTF-8 bytes back and each byte becomes \<open>%\<close> and its two hexadecimal digits;
  multi-byte sequences are rebuilt from these escapes, none is mangled.
\<close>

theorem decodeBase64ToString_roundtrip:
  assumes "\<forall>cp \<in> set cps. isScalarValue cp"
  shows "decodeBase64ToString (base64Encode (utf8 cps)) = Inr (utf16 cps) \<and>
         atob (base64Encode (utf8 cps)) = Inr (utf8 cps) \<and>
         percentEncoded (utf8 cps) =
           concat (map (\<lambda>b. [37, hexDigit (b div 16), hexDigit (b mod 16)]) (utf8 cps))"
  using atob_base64Encode [OF utf8_bytes [OF assms]] decode_utf8 [OF assms]
    percentEncoded_bytes [OF utf8_bytes [OF assms]]
  by (simp add: decodeBase64ToString_def)

theorem decodeBase64ToString_roundtrip_witness:
  "isScalarValue 233 \<and> isScalarValue 8364 \<and> isScalarValue 128512 \<and>
   base64Encode (utf8 [233, 8364, 128512]) = js ''w6nigqzwn5iA'' \<and>
   decodeBase64ToString (js ''w6nigqzwn5iA'') = Inr [233, 8364, 55357, 56832]"
proof -
  have s: "isScalarValue 233" "isScalarValue 8364" "isScalarValue 128512"
    by (simp_all add: isScalarValue_def)
  then have h: "\<forall>cp \<in> set [233, 8364, 128512]. isScalarValue cp" by simp
  have b: "base64Encode (utf8 [233, 8364, 128512]) = js ''w6nigqzwn5iA''"
    by (simp add: base64Encode_def utf8_def utf8Encode_def base64Char_def base64Alphabet_def js_def)
  have u: "utf16 [233, 8364, 128512] = [233, 8364, 55357, 56832]"
    by (simp add: utf16_def UTF16EncodeCodePoint_def)
  from decodeBase64ToString_roundtrip [OF h] s b u show ?thesis by simp
qed

section \<open>Properties of BigInt strings\<close>

text \<open>Parsing the decimal string of a BigInt gives the value back, so the string is a faithful key.\<close>

declare natToDecimal.simps [simp del]

lemma those_snoc:
  "those (xs @ [x]) = (case those xs of None \<Rightarrow> None | Some ys \<Rightarrow> map_option (\<lambda>y. ys @ [y]) x)"
  by (induction xs) (auto split: option.splits simp: option.map_comp comp_def)

lemma digitsValue_single: "digitsValue r [c] = digitValue r c"
  by (cases "digitValue r c") (simp_all add: digitsValue_def)

lemma digitsValue_snoc:
  "s \<noteq> [] \<Longrightarrow>
   digitsValue r (s @ [c]) =
     (case digitsValue r s of
        None \<Rightarrow> None
      | Some a \<Rightarrow> map_option (\<lambda>d. a * r + d) (digitValue r c))"
  by (cases "digitValue r c") (auto simp: digitsValue_def those_snoc split: option.splits)

lemma natToDecimal_nonempty: "natToDecimal n \<noteq> []"
  by (subst natToDecimal.simps) simp

lemma natToDecimal_digits: "\<forall>c \<in> set (natToDecimal n). 48 \<le> c \<and> c \<le> 57"
proof (induction n rule: natToDecimal.induct)
  case (1 n)
  show ?case
  proof (cases "n < 10")
    case True
    then show ?thesis by (subst natToDecimal.simps) simp
  next
    case False
    have "n mod 10 < 10" by simp
    then have "48 + n mod 10 \<le> 57" by linarith
    with False 1 show ?thesis by (subst natToDecimal.simps) simp
  qed
qed

lemma digitValue_decimal: "d < 10 \<Longrightarrow> digitValue 10 (48 + d) = Some d"
  by (simp add: digitValue_def)

lemma digitsValue_natToDecimal: "digitsValue 10 (natToDecimal n) = Some n"
proof (induction n rule: natToDecimal.induct)
  case (1 n)
  show ?case
  proof (cases "n < 10")
    case True
    then show ?thesis
      by (subst natToDecimal.simps) (simp add: digitsValue_single digitValue_decimal)
  next
    case False
    with 1 have IH: "digitsValue 10 (natToDecimal (n div 10)) = Some (n div 10)" by simp
    have "natToDecimal n = natToDecimal (n div 10) @ [48 + n mod 10]"
      using False by (subst natToDecimal.simps) simp
    then show ?thesis
      by (simp add: digitsValue_snoc natToDecimal_nonempty IH digitValue_decimal)
  qed
qed

lemma trim_id:
  assumes "s \<noteq> []" "\<not> isWhiteSpace (hd s)" "\<not> isWhiteSpace (last s)"
  shows "trim s = s"
proof -
  have a: "dropWhile isWhiteSpace s = s" using assms(1,2) by (cases s) simp_all
  have "rev s \<noteq> []" "\<not> isWhiteSpace (hd (rev s))" using assms(1,3) by (simp_all add: hd_rev)
  then have b: "dropWhile isWhiteSpace (rev s) = rev s" by (cases "rev s") simp_all
  show ?thesis by (simp add: trim_def a b)
qed

lemma digit_not_space: "48 \<le> c \<Longrightarrow> c \<le> 57 \<Longrightarrow> \<not> isWhiteSpace c"
  by (simp add: isWhiteSpace_def)

lemma trim_natToDecimal: "trim (natToDecimal n) = natToDecimal n"
proof (rule trim_id [OF natToDecimal_nonempty])
  have "hd (natToDecimal n) \<in> set (natToDecimal n)" "last (natToDecimal n) \<in> set (natToDecimal n)"
    using natToDecimal_nonempty by simp_all
  then show "\<not> isWhiteSpace (hd (natToDecimal n))" "\<not> isWhiteSpace (last (natToDecimal n))"
    using natToDecimal_digits digit_not_space by blast+
qed

lemma trim_minus_natToDecimal: "trim (45 # natToDecimal n) = 45 # natToDecimal n"
proof (rule trim_id)
  show "45 # natToDecimal n \<noteq> []" by simp
  show "\<not> isWhiteSpace (hd (45 # natToDecimal n))" by (simp add: isWhiteSpace_def)
  have "last (natToDecimal n) \<in> set (natToDecimal n)" using natToDecimal_nonempty by simp
  then have "\<not> isWhiteSpace (last (natToDecimal n))"
    using natToDecimal_digits digit_not_space by blast
  then show "\<not> isWhiteSpace (last (45 # natToDecimal n))"
    using natToDecimal_nonempty by simp
qed

lemma startsWith_digits:
  assumes "\<forall>c \<in> set s. 48 \<le> c \<and> c \<le> 57" and "\<exists>c \<in> set p. \<not> (48 \<le> c \<and> c \<le> 57)"
  shows "\<not> startsWith s p"
proof
  assume "startsWith s p"
  then have "set p \<subseteq> set s" unfolding startsWith_def by (metis set_take_subset)
  with assms show False by blast
qed

lemma StringToBigInt_natToDecimal: "StringToBigInt (natToDecimal n) = Some (int n)"
proof -
  let ?t = "natToDecimal n"
  have no: "\<not> startsWith ?t (js ''0x'')" "\<not> startsWith ?t (js ''0X'')"
    "\<not> startsWith ?t (js ''0o'')" "\<not> startsWith ?t (js ''0O'')"
    "\<not> startsWith ?t (js ''0b'')" "\<not> startsWith ?t (js ''0B'')"
    "\<not> startsWith ?t (js ''+'')" "\<not> startsWith ?t (js ''-'')"
    by (rule startsWith_digits [OF natToDecimal_digits], simp add: js_def)+
  show ?thesis
    unfolding StringToBigInt_def trim_natToDecimal Let_def
    using no natToDecimal_nonempty by (simp add: digitsValue_natToDecimal)
qed

lemma StringToBigInt_bigintToString: "StringToBigInt (bigintToString i) = Some i"
proof (cases "i < 0")
  case False
  then show ?thesis by (simp add: bigintToString_def StringToBigInt_natToDecimal)
next
  case True
  let ?t = "45 # natToDecimal (nat (- i))"
  have no: "\<not> startsWith ?t (js ''0x'')" "\<not> startsWith ?t (js ''0X'')"
    "\<not> startsWith ?t (js ''0o'')" "\<not> startsWith ?t (js ''0O'')"
    "\<not> startsWith ?t (js ''0b'')" "\<not> startsWith ?t (js ''0B'')"
    "\<not> startsWith ?t (js ''+'')"
    by (simp_all add: startsWith_def js_def)
  have yes: "startsWith ?t (js ''-'')" by (simp add: startsWith_def js_def)
  have "StringToBigInt ?t = Some (- int (nat (- i)))"
    unfolding StringToBigInt_def trim_minus_natToDecimal Let_def
    using no yes by (simp add: digitsValue_natToDecimal)
  with True show ?thesis by (simp add: bigintToString_def)
qed

lemma bigintToString_inj: "bigintToString a = bigintToString b \<longleftrightarrow> a = b"
  by (metis StringToBigInt_bigintToString option.inject)

section \<open>Properties of the gallery loader\<close>

subsection \<open>The comparator sort\<close>

lemma set_insertBy: "set (insertBy cmp x ys) = insert x (set ys)"
  by (induction ys) auto

lemma length_insertBy: "length (insertBy cmp x ys) = Suc (length ys)"
  by (induction ys) auto

lemma set_foldl_insertBy:
  "set (foldl (\<lambda>acc x. insertBy cmp x acc) acc xs) = set acc \<union> set xs"
  by (induction xs arbitrary: acc) (auto simp: set_insertBy)

lemma length_foldl_insertBy:
  "length (foldl (\<lambda>acc x. insertBy cmp x acc) acc xs) = length acc + length xs"
  by (induction xs arbitrary: acc) (auto simp: length_insertBy)

lemma set_sortBy: "set (sortBy cmp xs) = set xs"
  by (simp add: sortBy_def set_foldl_insertBy)

lemma length_sortBy: "length (sortBy cmp xs) = length xs"
  by (simp add: sortBy_def length_foldl_insertBy)

lemma sorted_insertBy:
  fixes f :: "'a \<Rightarrow> 'b::linorder"
  assumes "\<And>a b. cmp a b < 0 \<longleftrightarrow> f a < f b" and "sorted (map f ys)"
  shows "sorted (map f (insertBy cmp x ys))"
  using assms(2) by (induction ys) (auto simp: assms(1) set_insertBy)

lemma sorted_foldl_insertBy:
  fixes f :: "'a \<Rightarrow> 'b::linorder"
  assumes "\<And>a b. cmp a b < 0 \<longleftrightarrow> f a < f b"
  shows "sorted (map f acc) \<Longrightarrow> sorted (map f (foldl (\<lambda>acc x. insertBy cmp x acc) acc xs))"
proof (induction xs arbitrary: acc)
  case Nil
  then show ?case by simp
next
  case (Cons x xs)
  from Cons.prems have "sorted (map f (insertBy cmp x acc))"
    by (rule sorted_insertBy [OF assms])
  then show ?case using Cons.IH by simp
qed

lemma sorted_sortBy:
  fixes f :: "'a \<Rightarrow> 'b::linorder"
  assumes "\<And>a b. cmp a b < 0 \<longleftrightarrow> f a < f b"
  shows "sorted (map f (sortBy cmp xs))"
  unfolding sortBy_def by (rule sorted_foldl_insertBy [OF assms]) simp

lemma distinct_map_sortBy:
  assumes "distinct (map f xs)"
  shows "distinct (map f (sortBy cmp xs))"
proof (rule card_distinct)
  have "card (set (map f (sortBy cmp xs))) = card (set (map f xs))" by (simp add: set_sortBy)
  also have "\<dots> = length (map f xs)" using assms by (rule distinct_card)
  finally show "card (set (map f (sortBy cmp xs))) = length (map f (sortBy cmp xs))"
    by (simp add: length_sortBy)
qed

lemma compareTokenId_less: "compareTokenId a b < 0 \<longleftrightarrow> tokenId a < tokenId b"
  by (simp add: compareTokenId_def)

subsection \<open>The insertion-ordered map\<close>

lemma map_of_mapSet: "map_of (mapSet m k v) = (map_of m)(k \<mapsto> v)"
  by (induction m) auto

lemma keys_mapSet: "set (map fst (mapSet m k v)) = insert k (set (map fst m))"
proof (induction m)
  case Nil
  show ?case by simp
next
  case (Cons e m)
  obtain k' v' where e: "e = (k', v')" by (cases e)
  show ?case using Cons.IH by (cases "k' = k") (auto simp: e)
qed

lemma distinct_mapSet: "distinct (map fst m) \<Longrightarrow> distinct (map fst (mapSet m k v))"
proof (induction m)
  case Nil
  show ?case by simp
next
  case (Cons e m)
  obtain k' v' where e: "e = (k', v')" by (cases e)
  show ?case
  proof (cases "k' = k")
    case True
    with Cons.prems e show ?thesis by simp
  next
    case False
    have "k' \<notin> set (map fst (mapSet m k v))"
      using Cons.prems e False by (simp only: keys_mapSet) simp
    with Cons e False show ?thesis by simp
  qed
qed

lemma keyed_mapSet:
  "\<forall>e \<in> set m. fst e = key (snd e) \<Longrightarrow> \<forall>e \<in> set (mapSet m (key v) v). fst e = key (snd e)"
proof (induction m)
  case Nil
  show ?case by simp
next
  case (Cons e m)
  obtain k' v' where e: "e = (k', v')" by (cases e)
  from Cons.prems have "\<forall>e \<in> set m. fst e = key (snd e)" and k': "k' = key v'" by (simp_all add: e)
  with Cons.IH have "\<forall>e \<in> set (mapSet m (key v) v). fst e = key (snd e)" by simp
  then show ?case using Cons.prems k' by (cases "k' = key v") (simp_all add: e)
qed

lemma foldl_mapSet_map_of:
  "map_of (foldl (\<lambda>m it. mapSet m (key it) it) m xs) =
   map_of m ++ map_of (rev (map (\<lambda>it. (key it, it)) xs))"
proof (induction xs arbitrary: m)
  case Nil
  show ?case by simp
next
  case (Cons x xs)
  show ?case
    by (simp add: Cons.IH map_of_mapSet map_add_upd_left [symmetric] del: map_add_upd_left)
       (simp add: fun_eq_iff map_add_def split: option.splits)
qed

lemma foldl_mapSet_distinct:
  "distinct (map fst m) \<Longrightarrow> distinct (map fst (foldl (\<lambda>m it. mapSet m (key it) it) m xs))"
  by (induction xs arbitrary: m) (auto intro: distinct_mapSet)

lemma foldl_mapSet_keyed:
  "\<forall>e \<in> set m. fst e = key (snd e) \<Longrightarrow>
   \<forall>e \<in> set (foldl (\<lambda>m it. mapSet m (key it) it) m xs). fst e = key (snd e)"
proof (induction xs arbitrary: m)
  case Nil
  then show ?case by simp
next
  case (Cons x xs)
  from Cons.prems have "\<forall>e \<in> set (mapSet m (key x) x). fst e = key (snd e)"
    by (rule keyed_mapSet)
  then show ?case using Cons.IH by simp
qed

lemma map_of_keyed_find:
  "map_of (map (\<lambda>it. (key it, it)) ys) k = find (\<lambda>y. key y = k) ys"
  by (induction ys) auto

subsection \<open>The merge step\<close>

lemma mergeItems_fold:
  "mergeItems prev results =
   sortBy compareTokenId
     (mapValues (foldl (\<lambda>m it. mapSet m (bigintToString (tokenId it)) it) [] (prev @ results)))"
  by (simp add: mergeItems_def Let_def)

lemma find_tokenId_key:
  "find (\<lambda>y. bigintToString (tokenId y) = bigintToString i) ys = find (\<lambda>y. tokenId y = i) ys"
  by (simp add: bigintToString_inj)

lemma merged_values:
  fixes xs :: "SkullItem list"
  defines "M \<equiv> foldl (\<lambda>m it. mapSet m (bigintToString (tokenId it)) it) [] xs"
  shows "distinct (map tokenId (mapValues M))"
    and "x \<in> set (mapValues M) \<longleftrightarrow> lastWriter xs (tokenId x) = Some x"
proof -
  let ?key = "\<lambda>it::SkullItem. bigintToString (tokenId it)"
  have dM: "distinct (map fst M)"
    unfolding M_def by (rule foldl_mapSet_distinct) simp
  have kM: "\<forall>e \<in> set M. fst e = ?key (snd e)"
    unfolding M_def by (rule foldl_mapSet_keyed) simp
  have mM: "map_of M k = find (\<lambda>y. ?key y = k) (rev xs)" for k
    unfolding M_def foldl_mapSet_map_of
    by (simp add: rev_map map_of_keyed_find)
  have "map fst M = map ?key (mapValues M)"
    using kM by (simp add: mapValues_def)
  then have "distinct (map bigintToString (map tokenId (mapValues M)))"
    using dM by (simp add: comp_def)
  then show "distinct (map tokenId (mapValues M))"
    using distinct_map [of bigintToString "map tokenId (mapValues M)"] by blast
  have "x \<in> set (mapValues M) \<longleftrightarrow> (?key x, x) \<in> set M"
    using kM by (force simp: mapValues_def)
  also have "\<dots> \<longleftrightarrow> map_of M (?key x) = Some x"
    using dM by simp
  also have "\<dots> \<longleftrightarrow> lastWriter xs (tokenId x) = Some x"
    by (simp add: mM lastWriter_def find_tokenId_key)
  finally show "x \<in> set (mapValues M) \<longleftrightarrow> lastWriter xs (tokenId x) = Some x" .
qed

lemma mergeItems_member:
  "x \<in> set (mergeItems prev results) \<longleftrightarrow> lastWriter (prev @ results) (tokenId x) = Some x"
  unfolding mergeItems_fold by (simp only: set_sortBy merged_values(2))

lemma mergeItems_distinct: "distinct (map tokenId (mergeItems prev results))"
  unfolding mergeItems_fold by (rule distinct_map_sortBy) (rule merged_values(1))

lemma mergeItems_sorted: "sorted (map tokenId (mergeItems prev results))"
  unfolding mergeItems_fold by (rule sorted_sortBy) (rule compareTokenId_less)

lemma mergeItems_strict: "sorted_wrt (<) (map tokenId (mergeItems prev results))"
  by (simp add: strict_sorted_iff mergeItems_sorted mergeItems_distinct)

lemma find_SomeD: "find P xs = Some x \<Longrightarrow> x \<in> set xs \<and> P x"
  by (induction xs) (auto split: if_splits)

lemma find_app: "find P (xs @ ys) = (case find P xs of Some x \<Rightarrow> Some x | None \<Rightarrow> find P ys)"
  by (induction xs) auto

lemma lastWriter_member: "lastWriter xs i = Some x \<Longrightarrow> x \<in> set xs \<and> tokenId x = i"
  unfolding lastWriter_def using find_SomeD [of "\<lambda>x. tokenId x = i" "rev xs" x] by simp

lemma lastWriter_None: "lastWriter xs i = None \<longleftrightarrow> i \<notin> tokenId ` set xs"
  unfolding lastWriter_def by (auto simp: find_None_iff)

lemma mergeItems_ids:
  "set (map tokenId (mergeItems prev results)) = tokenId ` (set prev \<union> set results)"
proof (rule set_eqI)
  fix i
  show "i \<in> set (map tokenId (mergeItems prev results)) \<longleftrightarrow> i \<in> tokenId ` (set prev \<union> set results)"
  proof
    assume "i \<in> set (map tokenId (mergeItems prev results))"
    then obtain x where "x \<in> set (mergeItems prev results)" "tokenId x = i" by auto
    then have "lastWriter (prev @ results) i = Some x" by (simp add: mergeItems_member)
    then have "x \<in> set (prev @ results)" "tokenId x = i" using lastWriter_member by blast+
    then show "i \<in> tokenId ` (set prev \<union> set results)" by auto
  next
    assume "i \<in> tokenId ` (set prev \<union> set results)"
    then have "lastWriter (prev @ results) i \<noteq> None" by (simp add: lastWriter_None)
    then obtain x where x: "lastWriter (prev @ results) i = Some x" by auto
    then have "tokenId x = i" using lastWriter_member by blast
    with x have "x \<in> set (mergeItems prev results)" by (simp add: mergeItems_member)
    with \<open>tokenId x = i\<close> show "i \<in> set (map tokenId (mergeItems prev results))" by auto
  qed
qed

text \<open>A later result for an id supersedes every earlier entry for it.\<close>

lemma lastWriter_append:
  "lastWriter (xs @ ys) i = (case lastWriter ys i of Some y \<Rightarrow> Some y | None \<Rightarrow> lastWriter xs i)"
  by (simp add: lastWriter_def find_app split: option.splits)

lemma find_distinct_set:
  assumes "distinct (map f xs)"
  shows "find (\<lambda>x. f x = i) xs = Some x \<longleftrightarrow> x \<in> set xs \<and> f x = i"
  using assms by (induction xs) (auto simp: image_iff)

lemma lastWriter_distinct:
  assumes "distinct (map tokenId xs)"
  shows "lastWriter xs i = Some x \<longleftrightarrow> x \<in> set xs \<and> tokenId x = i"
  unfolding lastWriter_def using assms
  by (subst find_distinct_set) (simp_all add: rev_map [symmetric] distinct_rev)

lemma lastWriter_perm:
  assumes "distinct (map tokenId xs)" "distinct (map tokenId ys)" "set xs = set ys"
  shows "lastWriter xs i = lastWriter ys i"
proof (cases "lastWriter xs i")
  case None
  then show ?thesis using assms(3) by (metis lastWriter_None)
next
  case (Some x)
  then show ?thesis using assms by (metis lastWriter_distinct)
qed

lemma strictly_sorted_unique:
  fixes xs ys :: "SkullItem list"
  assumes "sorted_wrt (<) (map tokenId xs)" "sorted_wrt (<) (map tokenId ys)" "set xs = set ys"
  shows "xs = ys"
proof -
  have "set (map tokenId xs) = set (map tokenId ys)" using assms(3) by simp
  then have ids: "map tokenId xs = map tokenId ys"
    using assms(1,2) by (intro sorted_distinct_set_unique) (simp_all add: strict_sorted_iff)
  have "inj_on tokenId (set xs \<union> set ys)"
    using assms by (simp add: strict_sorted_iff distinct_map)
  with ids show ?thesis by (rule map_inj_on)
qed

lemma mergeItems_order_independent:
  assumes "distinct (map tokenId results)" "distinct (map tokenId results')"
      and "set results' = set results"
  shows "mergeItems prev results' = mergeItems prev results"
proof (rule strictly_sorted_unique)
  show "sorted_wrt (<) (map tokenId (mergeItems prev results'))"
    "sorted_wrt (<) (map tokenId (mergeItems prev results))"
    by (rule mergeItems_strict)+
  have "lastWriter (prev @ results') i = lastWriter (prev @ results) i" for i
    by (simp add: lastWriter_append lastWriter_perm [OF assms(2,1,3)])
  then show "set (mergeItems prev results') = set (mergeItems prev results)"
    by (auto simp: mergeItems_member)
qed

subsection \<open>Pages\<close>

lemma tokenId_placeholder: "tokenId (placeholder i) = i"
  by (simp add: placeholder_def)

lemma tokenId_fetchSkull: "tokenId (fetchSkull J chain i) = i"
  by (simp add: fetchSkull_def split: option.splits sum.splits)

lemma loadMore_page:
  assumes "loaded st < maxToLoad st"
  shows "loadMore J (Some chain) st =
         (st\<lparr>galleryItems :=
               mergeItems
                 (galleryItems st @ map placeholder [loaded st + 1..min (loaded st + 80) (maxToLoad st)])
                 (map (fetchSkull J chain) [loaded st + 1..min (loaded st + 80) (maxToLoad st)]),
             loaded := min (loaded st + 80) (maxToLoad st)\<rparr>,
          [loaded st + 1..min (loaded st + 80) (maxToLoad st)])"
  using assms by (simp add: loadMore_def Let_def pageSize_def)


lemma mergeItems_ids_image:
  "tokenId ` set (mergeItems prev results) = tokenId ` (set prev \<union> set results)"
  using mergeItems_ids [of prev results] by simp

lemma strict_upto: "sorted_wrt (<) [i..j]"
  by (simp add: strict_sorted_iff)

lemma loadMore_ids:
  assumes ids: "map tokenId (galleryItems st) = [1..loaded st]"
      and lo: "0 \<le> loaded st" and more: "loaded st < maxToLoad st"
  shows "map tokenId (galleryItems (fst (loadMore J (Some chain) st))) =
         [1..min (loaded st + 80) (maxToLoad st)]"
proof -
  let ?e = "min (loaded st + 80) (maxToLoad st)"
  let ?batch = "[loaded st + 1..?e]"
  let ?prev = "galleryItems st @ map placeholder ?batch"
  let ?results = "map (fetchSkull J chain) ?batch"
  have items: "galleryItems (fst (loadMore J (Some chain) st)) = mergeItems ?prev ?results"
    by (simp add: loadMore_page [OF more])
  have "tokenId ` set (galleryItems st) = {1..loaded st}"
    using ids by (metis list.set_map set_upto)
  moreover have "tokenId ` set (map placeholder ?batch) = {loaded st + 1..?e}"
    by (simp add: image_image tokenId_placeholder)
  moreover have "tokenId ` set ?results = {loaded st + 1..?e}"
    by (simp add: image_image tokenId_fetchSkull)
  moreover have "{1..loaded st} \<union> {loaded st + 1..?e} = {1..?e}"
    using lo more by auto
  ultimately have "tokenId ` set (mergeItems ?prev ?results) = {1..?e}"
    unfolding mergeItems_ids_image by (simp add: image_Un Un_assoc)
  then have "set (map tokenId (mergeItems ?prev ?results)) = set [1..?e]"
    by simp
  then have "map tokenId (mergeItems ?prev ?results) = [1..?e]"
    using mergeItems_strict [of ?prev ?results] strict_upto [of 1 ?e]
    by (intro sorted_distinct_set_unique) (simp_all add: strict_sorted_iff)
  then show ?thesis by (simp only: items)
qed

lemma maxToLoad_supply: "0 \<le> mintedCount st \<Longrightarrow> maxToLoad st = mintedCount st"
  by (simp add: maxToLoad_def)

lemma loadMore_fields:
  "mintedCount (fst (loadMore J pc st)) = mintedCount st"
  by (simp add: loadMore_def Let_def split: option.splits)

lemma two_pages:
  assumes "galleryItems st = []" "loaded st = 0" "160 \<le> mintedCount st"
  shows "map tokenId (galleryItems (fst (loadMore J (Some chain) (fst (loadMore J (Some chain) st)))))
         = [1..160]"
    and "snd (loadMore J (Some chain) st) = [1..80]"
    and "snd (loadMore J (Some chain) (fst (loadMore J (Some chain) st))) = [81..160]"
proof -
  let ?st1 = "fst (loadMore J (Some chain) st)"
  have m0: "maxToLoad st = mintedCount st" using assms(3) by (simp add: maxToLoad_def)
  have more0: "loaded st < maxToLoad st" using assms by (simp add: m0)
  have ids0: "map tokenId (galleryItems st) = [1..loaded st]" using assms by simp
  have l1: "loaded ?st1 = 80" using assms by (simp add: loadMore_page [OF more0] m0)
  have ids1: "map tokenId (galleryItems ?st1) = [1..loaded ?st1]"
    using loadMore_ids [OF ids0 _ more0, of J chain] assms by (simp add: l1 m0)
  have m1: "maxToLoad ?st1 = mintedCount st"
    using assms(3) by (simp add: maxToLoad_def loadMore_fields)
  have more1: "loaded ?st1 < maxToLoad ?st1" using assms(3) by (simp add: l1 m1)
  show "map tokenId (galleryItems (fst (loadMore J (Some chain) ?st1))) = [1..160]"
    using loadMore_ids [OF ids1 _ more1, of J chain] assms(3) by (simp add: l1 m1)
  show "snd (loadMore J (Some chain) st) = [1..80]"
    using assms by (simp add: loadMore_page [OF more0] m0)
  show "snd (loadMore J (Some chain) ?st1) = [81..160]"
    using assms(3) by (simp add: loadMore_page [OF more1] l1 m1)
qed

text \<open>
  Claim C5. After a merge step the collection is strictly ascending by token id, hence
  unique by id; it holds exactly the last entry written for each id, so a fetch result
  supersedes the older entry for its id; the outcome does not depend on the order in
  which the results of a page are listed; and from an empty gallery with a supply of at
  least 160, loading two pages yields the ids 1 to 160, 160 items with no duplicates.
\<close>

theorem gallery_merge_invariant:
  "sorted_wrt (<) (map tokenId (mergeItems prev results)) \<and>
   distinct (map tokenId (mergeItems prev results)) \<and>
   (\<forall>x. x \<in> set (mergeItems prev results) \<longleftrightarrow>
          lastWriter (prev @ results) (tokenId x) = Some x) \<and>
   (distinct (map tokenId results) \<longrightarrow> set results \<subseteq> set (mergeItems prev results)) \<and>
   (distinct (map tokenId results) \<and> distinct (map tokenId results') \<and> set results' = set results
      \<longrightarrow> mergeItems prev results' = mergeItems prev results) \<and>
   (galleryItems st = [] \<and> loaded st = 0 \<and> 160 \<le> mintedCount st \<and> exactAsNumber (mintedCount st)
      \<longrightarrow> map tokenId (galleryItems (fst (loadMore J (Some chain) (fst (loadMore J (Some chain) st)))))
             = [1..160] \<and>
           length (galleryItems (fst (loadMore J (Some chain) (fst (loadMore J (Some chain) st)))))
             = 160)"
proof (intro conjI allI impI)
  show "sorted_wrt (<) (map tokenId (mergeItems prev results))" by (rule mergeItems_strict)
  show "distinct (map tokenId (mergeItems prev results))" by (rule mergeItems_distinct)
  show "x \<in> set (mergeItems prev results) \<longleftrightarrow> lastWriter (prev @ results) (tokenId x) = Some x" for x
    by (rule mergeItems_member)
  show "set results \<subseteq> set (mergeItems prev results)" if d: "distinct (map tokenId results)"
  proof
    fix r assume "r \<in> set results"
    then have "lastWriter results (tokenId r) = Some r" using lastWriter_distinct [OF d] by simp
    then show "r \<in> set (mergeItems prev results)"
      by (simp add: mergeItems_member lastWriter_append)
  qed
  show "mergeItems prev results' = mergeItems prev results"
    if "distinct (map tokenId results) \<and> distinct (map tokenId results') \<and> set results' = set results"
    using that mergeItems_order_independent by blast
next
  assume a: "galleryItems st = [] \<and> loaded st = 0 \<and> 160 \<le> mintedCount st \<and> exactAsNumber (mintedCount st)"
  then have h: "galleryItems st = []" "loaded st = 0" "160 \<le> mintedCount st" by simp_all
  show ids: "map tokenId (galleryItems (fst (loadMore J (Some chain) (fst (loadMore J (Some chain) st)))))
             = [1..160]"
    by (rule two_pages(1) [OF h])
  have "length (map tokenId (galleryItems (fst (loadMore J (Some chain) (fst (loadMore J (Some chain) st))))))
        = length [1..160::int]"
    by (simp only: ids)
  then show "length (galleryItems (fst (loadMore J (Some chain) (fst (loadMore J (Some chain) st))))) = 160"
    by simp
qed

lemma bareGallery_fields:
  "galleryItems bareGallery = []" "loaded bareGallery = 0" "mintedCount bareGallery = 200"
  by (simp_all add: bareGallery_def fetchMintedCount_def bareChain_def initialGallery_def)

theorem gallery_merge_invariant_witness:
  "distinct (map tokenId [failedSkull 2, failedSkull 1]) \<and>
   set [failedSkull 2, failedSkull 1] = set [failedSkull 1, failedSkull 2] \<and>
   mergeItems [placeholder 1, placeholder 2] [failedSkull 2, failedSkull 1] =
     mergeItems [placeholder 1, placeholder 2] [failedSkull 1, failedSkull 2] \<and>
   mergeItems [placeholder 1, placeholder 2] [failedSkull 2, failedSkull 1] =
     [failedSkull 1, failedSkull 2] \<and>
   galleryItems bareGallery = [] \<and> loaded bareGallery = 0 \<and> 160 \<le> mintedCount bareGallery \<and>
   exactAsNumber (mintedCount bareGallery) \<and>
   length (galleryItems (fst (loadMore (\<lambda>s. Inl SyntaxError) (Some bareChain)
              (fst (loadMore (\<lambda>s. Inl SyntaxError) (Some bareChain) bareGallery))))) = 160"
proof -
  have d: "distinct (map tokenId [failedSkull 2, failedSkull 1])"
    "distinct (map tokenId [failedSkull 1, failedSkull 2])"
    by (simp_all add: failedSkull_def)
  have s: "set [failedSkull 2, failedSkull 1] = set [failedSkull 1, failedSkull 2]" by auto
  have g: "galleryItems bareGallery = [] \<and> loaded bareGallery = 0 \<and> 160 \<le> mintedCount bareGallery
           \<and> exactAsNumber (mintedCount bareGallery)"
    by (simp add: bareGallery_fields exactAsNumber_def)
  have e: "mergeItems [placeholder 1, placeholder 2] [failedSkull 2, failedSkull 1] =
           [failedSkull 1, failedSkull 2]"
    by (simp add: mergeItems_def Let_def sortBy_def mapValues_def bigintToString_def
          natToDecimal.simps placeholder_def failedSkull_def compareTokenId_def)
  note t = gallery_merge_invariant [of "[placeholder 1, placeholder 2]"
      "[failedSkull 1, failedSkull 2]" "[failedSkull 2, failedSkull 1]" bareGallery
      "\<lambda>s. Inl SyntaxError" bareChain]
  from t d s g e show ?thesis by blast
qed



section \<open>Properties of the sheet compositor\<close>









section \<open>Properties of the indexer proxy\<close>

subsection \<open>Digit strings\<close>

lemma placeValue_snoc: "placeValue r (ds @ [d]) = placeValue r ds * r + d"
  by (induction ds) (simp_all add: algebra_simps)

lemma digitValue_hex: "isHexDigit c \<Longrightarrow> digitValue 16 c = Some (digitOf c)"
  by (auto simp: isHexDigit_def isDecimalDigit_def isHexLetter_def digitValue_def digitOf_def Let_def)

lemma digitValue_dec: "isDecimalDigit c \<Longrightarrow> digitValue 10 c = Some (digitOf c)"
  by (auto simp: isDecimalDigit_def digitValue_def digitOf_def Let_def)

lemma digitsValue_placeValue:
  assumes "\<And>c. P c \<Longrightarrow> digitValue r c = Some (digitOf c)"
  shows "s \<noteq> [] \<Longrightarrow> list_all P s \<Longrightarrow> digitsValue r s = Some (placeValue r (map digitOf s))"
proof (induction s rule: rev_induct)
  case Nil
  then show ?case by simp
next
  case (snoc c s)
  then have c: "digitValue r c = Some (digitOf c)" using assms by simp
  show ?case
  proof (cases "s = []")
    case True
    then show ?thesis by (simp add: digitsValue_single c)
  next
    case False
    with snoc have "digitsValue r s = Some (placeValue r (map digitOf s))" by simp
    with False show ?thesis by (simp add: digitsValue_snoc c placeValue_snoc)
  qed
qed

lemma digitsValue_hex:
  "onlyHexDigits s \<Longrightarrow> digitsValue 16 s = Some (placeValue 16 (map digitOf s))"
  unfolding onlyHexDigits_def using digitsValue_placeValue [of isHexDigit 16 s] digitValue_hex by blast

lemma digitsValue_dec:
  "s \<noteq> [] \<Longrightarrow> list_all isDecimalDigit s \<Longrightarrow> digitsValue 10 s = Some (placeValue 10 (map digitOf s))"
  using digitsValue_placeValue [of isDecimalDigit 10 s] digitValue_dec by blast

lemma hex_not_space: "isHexDigit c \<Longrightarrow> \<not> isWhiteSpace c"
  by (auto simp: isHexDigit_def isDecimalDigit_def isHexLetter_def isWhiteSpace_def)

lemma js_0x: "js ''0x'' = [48, 120]"
  by (simp add: js_def)

lemma trim_0x_hex:
  assumes "onlyHexDigits h"
  shows "trim (js ''0x'' @ h) = js ''0x'' @ h"
proof (rule trim_id)
  show "js ''0x'' @ h \<noteq> []" by (simp add: js_0x)
  show "\<not> isWhiteSpace (hd (js ''0x'' @ h))" by (simp add: js_0x isWhiteSpace_def)
  have "h \<noteq> []" "isHexDigit (last h)"
    using assms by (auto simp: onlyHexDigits_def list_all_iff)
  then show "\<not> isWhiteSpace (last (js ''0x'' @ h))" by (simp add: hex_not_space)
qed

lemma BigInt_0x_hex:
  assumes "onlyHexDigits h"
  shows "BigInt (js ''0x'' @ h) = Inr (hexadecimalValue h)"
proof -
  have "StringToBigInt (js ''0x'' @ h) = Some (hexadecimalValue h)"
    unfolding StringToBigInt_def trim_0x_hex [OF assms] Let_def
    by (simp add: js_0x startsWith_def digitsValue_hex [OF assms] hexadecimalValue_def)
  then show ?thesis by (simp add: BigInt_def)
qed

lemma decimal_digits_plain:
  assumes "list_all isDecimalDigit t"
  shows "\<forall>c \<in> set t. 48 \<le> c \<and> c \<le> 57"
  using assms by (simp add: list_all_iff isDecimalDigit_def)

lemma BigInt_decimal:
  assumes "t \<noteq> []" "list_all isDecimalDigit t"
  shows "BigInt t = Inr (decimalValue t)"
proof -
  have d: "\<forall>c \<in> set t. 48 \<le> c \<and> c \<le> 57" using assms(2) by (rule decimal_digits_plain)
  have "hd t \<in> set t" "last t \<in> set t" using assms(1) by simp_all
  then have "\<not> isWhiteSpace (hd t)" "\<not> isWhiteSpace (last t)"
    using d digit_not_space by blast+
  then have tr: "trim t = t" using assms(1) by (intro trim_id)
  have no: "\<not> startsWith t (js ''0x'')" "\<not> startsWith t (js ''0X'')"
    "\<not> startsWith t (js ''0o'')" "\<not> startsWith t (js ''0O'')"
    "\<not> startsWith t (js ''0b'')" "\<not> startsWith t (js ''0B'')"
    "\<not> startsWith t (js ''+'')" "\<not> startsWith t (js ''-'')"
    by (rule startsWith_digits [OF d], simp add: js_def)+
  have "StringToBigInt t = Some (decimalValue t)"
    unfolding StringToBigInt_def tr Let_def
    using no assms(1) by (simp add: digitsValue_dec [OF assms] decimalValue_def)
  then show ?thesis by (simp add: BigInt_def)
qed

subsection \<open>The three readings\<close>

lemma parse_prefixed:
  assumes "startsWith (trim s) (js ''0x'')" and "onlyHexDigits (drop 2 (trim s))"
  shows "parseAlchemyTokenIdToDecimal s = Inr (bigintToString (hexadecimalValue (drop 2 (trim s))))"
proof -
  have "length (js ''0x'') = 2" by (simp add: js_def)
  then have "take 2 (trim s) = js ''0x''" using assms(1) by (simp add: startsWith_def)
  then have t: "trim s = js ''0x'' @ drop 2 (trim s)" by (metis append_take_drop_id)
  have "BigInt (trim s) = Inr (hexadecimalValue (drop 2 (trim s)))"
    using BigInt_0x_hex [OF assms(2)] t by simp
  then show ?thesis using assms(1) by (simp add: parseAlchemyTokenIdToDecimal_def Let_def)
qed

lemma hex_no_x:
  assumes "onlyHexDigits t"
  shows "\<not> startsWith t (js ''0x'')"
proof
  assume "startsWith t (js ''0x'')"
  then have "set (js ''0x'') \<subseteq> set t" unfolding startsWith_def by (metis set_take_subset)
  then have "120 \<in> set t" by (simp add: js_0x)
  then have "isHexDigit 120" using assms by (simp add: onlyHexDigits_def list_all_iff)
  then show False by (simp add: isHexDigit_def isDecimalDigit_def isHexLetter_def)
qed

lemma parse_bare_hex:
  assumes "onlyHexDigits (trim s)" and "hasHexLetter (trim s)"
  shows "parseAlchemyTokenIdToDecimal s = Inr (bigintToString (hexadecimalValue (trim s)))"
  using assms hex_no_x [OF assms(1)] BigInt_0x_hex [OF assms(1)]
  by (simp add: parseAlchemyTokenIdToDecimal_def Let_def)

lemma decimal_no_letter:
  assumes "list_all isDecimalDigit t"
  shows "\<not> hasHexLetter t"
  using assms by (auto simp: hasHexLetter_def list_all_iff list_ex_iff isDecimalDigit_def isHexLetter_def)

lemma parse_decimal:
  assumes "trim s \<noteq> []" and "list_all isDecimalDigit (trim s)"
  shows "parseAlchemyTokenIdToDecimal s = Inr (bigintToString (decimalValue (trim s)))"
proof -
  have "onlyHexDigits (trim s)"
    using assms by (auto simp: onlyHexDigits_def isHexDigit_def list_all_iff)
  then have "\<not> startsWith (trim s) (js ''0x'')" by (rule hex_no_x)
  then show ?thesis
    using decimal_no_letter [OF assms(2)] BigInt_decimal [OF assms]
    by (simp add: parseAlchemyTokenIdToDecimal_def Let_def)
qed

subsection \<open>Sorting the decimal strings\<close>

lemma bind_Inr_iff: "bind m f = Inr y \<longleftrightarrow> (\<exists>x. m = Inr x \<and> f x = Inr y)"
  by (cases m) simp_all

lemma parse_is_decimal:
  "parseAlchemyTokenIdToDecimal s = Inr d \<Longrightarrow> \<exists>v. d = bigintToString v"
  by (auto simp: parseAlchemyTokenIdToDecimal_def Let_def bind_Inr_iff split: if_splits)

lemma mapE_parse_decimal:
  "mapE parseAlchemyTokenIdToDecimal owned = Inr ids \<Longrightarrow>
   \<exists>vs. ids = map bigintToString vs \<and> length vs = length owned"
proof (induction owned arbitrary: ids)
  case Nil
  then show ?case by simp
next
  case (Cons s owned)
  from Cons.prems obtain d ds where d: "parseAlchemyTokenIdToDecimal s = Inr d"
    and ds: "mapE parseAlchemyTokenIdToDecimal owned = Inr ds" and ids: "ids = d # ds"
    by (auto simp: bind_Inr_iff)
  from parse_is_decimal [OF d] obtain v where v: "d = bigintToString v" by blast
  from Cons.IH [OF ds] obtain vs where vs: "ds = map bigintToString vs" "length vs = length owned"
    by blast
  have "ids = map bigintToString (v # vs) \<and> length (v # vs) = length (s # owned)"
    using ids v vs by simp
  then show ?case by blast
qed

lemma BigInt_bigintToString: "BigInt (bigintToString v) = Inr v"
  by (simp add: BigInt_def StringToBigInt_bigintToString)

lemma compareDecimal_strings:
  "compareDecimal (bigintToString x) (bigintToString y) = Inr (if x < y then - 1 else 1)"
  by (simp add: compareDecimal_def BigInt_bigintToString)

lemma insertByE_strings:
  "insertByE compareDecimal (bigintToString x) (map bigintToString ys) =
   Inr (map bigintToString (insertBy (\<lambda>a b. if a < b then - 1 else 1) x ys))"
  by (induction ys) (simp_all add: compareDecimal_strings)

lemma foldl_insertByE_strings:
  "foldl (\<lambda>acc x. bind acc (insertByE compareDecimal x)) (Inr (map bigintToString acc))
     (map bigintToString vs) =
   Inr (map bigintToString (foldl (\<lambda>acc x. insertBy (\<lambda>a b. if a < b then - 1 else 1) x acc) acc vs))"
  by (induction vs arbitrary: acc) (simp_all add: insertByE_strings)

lemma sortByE_strings:
  "sortByE compareDecimal (map bigintToString vs) =
   Inr (map bigintToString (sortBy (\<lambda>a b. if a < b then - 1 else 1) vs))"
  using foldl_insertByE_strings [of "[]" vs] by (simp add: sortByE_def sortBy_def)

lemma sorted_sortBy_int:
  "sorted (sortBy (\<lambda>a b. if a < b then - 1 else 1) (vs :: int list))"
  using sorted_sortBy [of "\<lambda>a b. if a < b then - 1 else 1" "\<lambda>x. x" vs] by simp

lemma normalise_and_sort:
  assumes "mapE parseAlchemyTokenIdToDecimal owned = Inr ids"
  shows "\<exists>vs. bind (mapE parseAlchemyTokenIdToDecimal owned) (sortByE compareDecimal)
               = Inr (map bigintToString vs) \<and> sorted vs \<and> length vs = length owned"
proof -
  from mapE_parse_decimal [OF assms] obtain us where
    us: "ids = map bigintToString us" "length us = length owned" by blast
  let ?vs = "sortBy (\<lambda>a b. if a < b then - 1 else 1) us"
  have "bind (mapE parseAlchemyTokenIdToDecimal owned) (sortByE compareDecimal)
        = Inr (map bigintToString ?vs)"
    by (simp add: assms us sortByE_strings)
  moreover have "sorted ?vs" by (rule sorted_sortBy_int)
  moreover have "length ?vs = length owned" by (simp add: length_sortBy us)
  ultimately show ?thesis by blast
qed

subsection \<open>Sorting is a permutation, and the signed, empty and malformed readings\<close>


lemma mset_insertBy: "mset (insertBy cmp x ys) = add_mset x (mset ys)"
  by (induction ys) auto

lemma mset_foldl_insertBy:
  "mset (foldl (\<lambda>acc x. insertBy cmp x acc) acc xs) = mset acc + mset xs"
  by (induction xs arbitrary: acc) (auto simp: mset_insertBy)

lemma mset_sortBy: "mset (sortBy cmp xs) = mset xs"
  by (simp add: sortBy_def mset_foldl_insertBy)

lemma sortBy_int_sort: "sortBy (\<lambda>a b. if a < b then - 1 else 1) (vs :: int list) = sort vs"
  by (rule properties_for_sort [symmetric]) (simp_all add: mset_sortBy sorted_sortBy_int)

lemma normalise_sorted:
  assumes "mapE parseAlchemyTokenIdToDecimal owned = Inr ids"
  shows "\<exists>vs. ids = map bigintToString vs \<and> length vs = length owned \<and>
              bind (mapE parseAlchemyTokenIdToDecimal owned) (sortByE compareDecimal)
                = Inr (map bigintToString (sort vs))"
proof -
  from mapE_parse_decimal [OF assms] obtain vs where
    vs: "ids = map bigintToString vs" "length vs = length owned" by blast
  have "bind (mapE parseAlchemyTokenIdToDecimal owned) (sortByE compareDecimal)
        = Inr (map bigintToString (sort vs))"
    by (simp add: assms vs sortByE_strings sortBy_int_sort)
  with vs show ?thesis by blast
qed

lemma itemTokenId_fetchLetter: "itemTokenId (fetchLetter alchemy t) = t"
  by (simp add: fetchLetter_def split: option.splits)

lemma POST_success:
  assumes "safeParse isAddress body = Inr address"
      and "getNftsForOwner alchemy address = Some owned"
      and "mapE parseAlchemyTokenIdToDecimal owned = Inr (map bigintToString vs)"
  shows "POST isAddress alchemy (Some body) =
           (\<lparr>status = 200,
             payload = Success address LETTER_CONTRACT_ADDRESS
                         (map (fetchLetter alchemy) (map bigintToString (sort vs)))\<rparr>,
            CallGetNftsForOwner address # map CallGetNftMetadata (map bigintToString (sort vs)))"
proof -
  from normalise_sorted [OF assms(3)] obtain us where
    us: "map bigintToString vs = map bigintToString us"
    and b: "bind (mapE parseAlchemyTokenIdToDecimal owned) (sortByE compareDecimal)
              = Inr (map bigintToString (sort us))"
    by blast
  have "inj bigintToString" by (simp add: inj_def bigintToString_inj)
  with us have "vs = us" by (simp add: inj_map_eq_map)
  with b have "sortByE compareDecimal (map bigintToString vs) = Inr (map bigintToString (sort vs))"
    using assms(3) by simp
  then show ?thesis using assms by (simp add: POST_def)
qed


lemma trim_trim: "trim (trim s) = trim s"
proof -
  define u where "u = dropWhile isWhiteSpace s"
  define v where "v = dropWhile isWhiteSpace (rev u)"
  have t: "trim s = rev v" by (simp add: trim_def u_def v_def)
  have vv: "dropWhile isWhiteSpace v = v" unfolding v_def by (rule dropWhile_idem)
  have "dropWhile isWhiteSpace (rev v) = rev v"
  proof (cases "v = []")
    case True
    then show ?thesis by simp
  next
    case False
    have "rev u = takeWhile isWhiteSpace (rev u) @ v" by (simp add: v_def)
    then have "last (rev u) = last v" using False by (metis last_appendR)
    moreover have u: "u \<noteq> []"
    proof
      assume "u = []"
      then have "v = []" by (simp add: v_def)
      with False show False ..
    qed
    ultimately have "hd (rev v) = hd u" using False by (simp add: hd_rev last_rev)
    moreover have "\<not> isWhiteSpace (hd u)" using u unfolding u_def by (rule hd_dropWhile)
    ultimately have "\<not> isWhiteSpace (hd (rev v))" by simp
    then show ?thesis using False by (cases "rev v") simp_all
  qed
  then have "trim (rev v) = rev v" by (simp add: trim_def vv)
  then show ?thesis by (simp add: t)
qed

lemma those_None: "x \<in> set xs \<Longrightarrow> f x = None \<Longrightarrow> those (map f xs) = None"
  by (induction xs) (auto split: option.splits)

lemma digitValue_not_hex: "\<not> isHexDigit c \<Longrightarrow> digitValue 16 c = None"
  by (auto simp: isHexDigit_def isDecimalDigit_def isHexLetter_def digitValue_def Let_def)

lemma digitsValue_not_hex:
  assumes "\<not> onlyHexDigits h"
  shows "digitsValue 16 h = None"
proof (cases "h = []")
  case True
  then show ?thesis by (simp add: digitsValue_def)
next
  case False
  then obtain c where "c \<in> set h" "\<not> isHexDigit c"
    using assms by (auto simp: onlyHexDigits_def list_all_iff)
  then have "those (map (digitValue 16) h) = None"
    using digitValue_not_hex those_None by metis
  then show ?thesis by (simp add: digitsValue_def)
qed

lemma parse_prefixed_bad:
  assumes "startsWith (trim s) (js ''0x'')" and "\<not> onlyHexDigits (drop 2 (trim s))"
  shows "parseAlchemyTokenIdToDecimal s = Inl SyntaxError"
proof -
  have n: "trim s \<noteq> []" using assms(1) by (auto simp: startsWith_def js_0x)
  have "StringToBigInt (trim s) = None"
    unfolding StringToBigInt_def trim_trim Let_def
    using assms(1) n by (simp add: digitsValue_not_hex [OF assms(2)])
  then have "BigInt (trim s) = Inl SyntaxError" by (simp add: BigInt_def)
  then show ?thesis using assms(1) by (simp add: parseAlchemyTokenIdToDecimal_def Let_def)
qed

lemma BigInt_error: "BigInt t = Inl e \<Longrightarrow> e = SyntaxError"
  by (auto simp: BigInt_def split: option.splits)

lemma bind_error:
  "bind m f = Inl e \<Longrightarrow> (\<And>x. m = Inl x \<Longrightarrow> x = e') \<Longrightarrow> (\<And>v x. f v = Inl x \<Longrightarrow> x = e') \<Longrightarrow> e = e'"
  by (cases m) auto

lemma parse_error: "parseAlchemyTokenIdToDecimal s = Inl e \<Longrightarrow> e = SyntaxError"
  unfolding parseAlchemyTokenIdToDecimal_def Let_def
  by (auto split: if_splits elim!: bind_error dest: BigInt_error)

lemma mapE_Inr_iff: "mapE f xs = Inr ys \<longleftrightarrow> map f xs = map Inr ys"
proof (induction xs arbitrary: ys)
  case Nil
  then show ?case by auto
next
  case (Cons x xs)
  show ?case
  proof (cases "f x")
    case (Inl e)
    then show ?thesis by (cases ys) auto
  next
    case (Inr y)
    show ?thesis
    proof (cases "mapE f xs")
      case (Inl e)
      then have "\<And>zs. map f xs \<noteq> map Inr zs" using Cons.IH by auto
      then show ?thesis using Inl Inr by (cases ys) auto
    next
      case r: (Inr zs)
      then have "map f xs = map Inr zs" using Cons.IH by simp
      then show ?thesis using r Inr by (cases ys) (auto simp: inj_map_eq_map)
    qed
  qed
qed

lemma mapE_error:
  "mapE f xs = Inl e \<Longrightarrow> \<exists>x \<in> set xs. f x = Inl e"
proof (induction xs)
  case Nil
  then show ?case by simp
next
  case (Cons x xs)
  then show ?case by (cases "f x"; cases "mapE f xs") auto
qed


lemma parse_dispatch:
  assumes "\<not> startsWith (trim s) (js ''0x'')"
      and "\<not> (onlyHexDigits (trim s) \<and> hasHexLetter (trim s))"
  shows "parseAlchemyTokenIdToDecimal s = bind (BigInt (trim s)) (\<lambda>v. Inr (bigintToString v))"
  using assms by (auto simp: parseAlchemyTokenIdToDecimal_def Let_def)

lemma parse_empty:
  assumes "trim s = []"
  shows "parseAlchemyTokenIdToDecimal s = Inr (js ''0'')"
proof -
  have "BigInt [] = Inr 0" by (simp add: BigInt_def StringToBigInt_def trim_def)
  moreover have "bigintToString 0 = js ''0''"
    by (simp add: bigintToString_def natToDecimal.simps js_def)
  ultimately show ?thesis
    using assms
    by (simp add: parseAlchemyTokenIdToDecimal_def Let_def startsWith_def js_def
        onlyHexDigits_def)
qed

lemma BigInt_signed:
  assumes "ds \<noteq> []" "list_all isDecimalDigit ds" "c = 43 \<or> c = 45"
  shows "BigInt (c # ds) = Inr (if c = 45 then - decimalValue ds else decimalValue ds)"
proof -
  have d: "\<forall>x \<in> set ds. 48 \<le> x \<and> x \<le> 57" using assms(2) by (rule decimal_digits_plain)
  have "last ds \<in> set ds" using assms(1) by simp
  then have "\<not> isWhiteSpace (last ds)" using d digit_not_space by blast
  moreover have "\<not> isWhiteSpace c" using assms(3) by (auto simp: isWhiteSpace_def)
  ultimately have tr: "trim (c # ds) = c # ds" using assms(1) by (intro trim_id) simp_all
  have "StringToBigInt (c # ds) = Some (if c = 45 then - decimalValue ds else decimalValue ds)"
    unfolding StringToBigInt_def tr Let_def
    using assms(3) by (auto simp: startsWith_def js_def digitsValue_dec [OF assms(1,2)] decimalValue_def)
  then show ?thesis by (simp add: BigInt_def)
qed

lemma parse_signed:
  assumes "trim s = c # ds" "ds \<noteq> []" "list_all isDecimalDigit ds" "c = 43 \<or> c = 45"
  shows "parseAlchemyTokenIdToDecimal s
           = Inr (bigintToString (if c = 45 then - decimalValue ds else decimalValue ds))"
proof -
  have a: "\<not> startsWith (c # ds) (js ''0x'')" using assms(4) by (auto simp: startsWith_def js_def)
  have b: "\<not> onlyHexDigits (c # ds)"
    using assms(4) by (auto simp: onlyHexDigits_def isHexDigit_def isDecimalDigit_def isHexLetter_def)
  show ?thesis
    using a b BigInt_signed [OF assms(2,3,4)]
    by (simp add: parseAlchemyTokenIdToDecimal_def Let_def assms(1))
qed

subsection \<open>Token-id normalisation\<close>

text \<open>
  Claim C10, for the readings that return. With \<open>t\<close> the trimmed input:
  when \<open>t\<close> starts with \<open>0x\<close> the result is the decimal string of the hexadecimal value of
  the rest if the rest is a non-empty run of hex digits, and \<open>SyntaxError\<close> is thrown
  otherwise; when \<open>t\<close> is only hex digits with at least one letter the result is the
  decimal string of its hexadecimal value; in every other case \<open>t\<close> is handed to \<open>BigInt\<close>
  unchanged and the result, or the error, is \<open>BigInt\<close>'s. That last case reads the empty
  string as \<open>0\<close>, a non-empty run of decimal digits as decimal (so an unprefixed hex id
  of digits only is decimal), and a sign followed by decimal digits as the signed
  decimal. The only error is \<open>SyntaxError\<close>. When every id of the owner is normalised to
  \<open>ids\<close>, these are the decimal strings of integers \<open>vs\<close>, and the route answers with one
  letter per id of \<open>sort vs\<close>, in that order: the letters' token ids are exactly the
  owner's normalised ids, each as often as it is owned, ascending by numeric value.
\<close>

theorem tokenId_normalisation:
  "(startsWith (trim s) (js ''0x'') \<longrightarrow>
      parseAlchemyTokenIdToDecimal s
        = (if onlyHexDigits (drop 2 (trim s))
           then Inr (bigintToString (hexadecimalValue (drop 2 (trim s))))
           else Inl SyntaxError)) \<and>
   (onlyHexDigits (trim s) \<and> hasHexLetter (trim s) \<longrightarrow>
      parseAlchemyTokenIdToDecimal s = Inr (bigintToString (hexadecimalValue (trim s)))) \<and>
   (\<not> startsWith (trim s) (js ''0x'') \<and> \<not> (onlyHexDigits (trim s) \<and> hasHexLetter (trim s)) \<longrightarrow>
      parseAlchemyTokenIdToDecimal s = bind (BigInt (trim s)) (\<lambda>v. Inr (bigintToString v))) \<and>
   (trim s = [] \<longrightarrow> parseAlchemyTokenIdToDecimal s = Inr (js ''0'')) \<and>
   (trim s \<noteq> [] \<and> list_all isDecimalDigit (trim s) \<longrightarrow>
      parseAlchemyTokenIdToDecimal s = Inr (bigintToString (decimalValue (trim s)))) \<and>
   (ds \<noteq> [] \<and> list_all isDecimalDigit ds \<and> trim s = 43 # ds \<longrightarrow>
      parseAlchemyTokenIdToDecimal s = Inr (bigintToString (decimalValue ds))) \<and>
   (ds \<noteq> [] \<and> list_all isDecimalDigit ds \<and> trim s = 45 # ds \<longrightarrow>
      parseAlchemyTokenIdToDecimal s = Inr (bigintToString (- decimalValue ds))) \<and>
   (parseAlchemyTokenIdToDecimal s = Inl e \<longrightarrow> e = SyntaxError) \<and>
   (safeParse isAddress body = Inr address \<and> getNftsForOwner alchemy address = Some owned \<and>
    map parseAlchemyTokenIdToDecimal owned = map Inr ids \<longrightarrow>
      (\<exists>vs. ids = map bigintToString vs \<and>
            POST isAddress alchemy (Some body)
              = (\<lparr>status = 200,
                  payload = Success address LETTER_CONTRACT_ADDRESS
                              (map (fetchLetter alchemy) (map bigintToString (sort vs)))\<rparr>,
                 CallGetNftsForOwner address # map CallGetNftMetadata (map bigintToString (sort vs))) \<and>
            map itemTokenId (map (fetchLetter alchemy) (map bigintToString (sort vs)))
              = map bigintToString (sort vs)))"
proof (intro conjI impI)
  assume "startsWith (trim s) (js ''0x'')"
  then show "parseAlchemyTokenIdToDecimal s
        = (if onlyHexDigits (drop 2 (trim s))
           then Inr (bigintToString (hexadecimalValue (drop 2 (trim s))))
           else Inl SyntaxError)"
    by (simp add: parse_prefixed parse_prefixed_bad)
next
  assume "onlyHexDigits (trim s) \<and> hasHexLetter (trim s)"
  then show "parseAlchemyTokenIdToDecimal s = Inr (bigintToString (hexadecimalValue (trim s)))"
    by (simp add: parse_bare_hex)
next
  assume "\<not> startsWith (trim s) (js ''0x'') \<and> \<not> (onlyHexDigits (trim s) \<and> hasHexLetter (trim s))"
  then show "parseAlchemyTokenIdToDecimal s = bind (BigInt (trim s)) (\<lambda>v. Inr (bigintToString v))"
    by (intro parse_dispatch) simp_all
next
  assume "trim s = []"
  then show "parseAlchemyTokenIdToDecimal s = Inr (js ''0'')" by (rule parse_empty)
next
  assume "trim s \<noteq> [] \<and> list_all isDecimalDigit (trim s)"
  then show "parseAlchemyTokenIdToDecimal s = Inr (bigintToString (decimalValue (trim s)))"
    by (simp add: parse_decimal)
next
  assume "ds \<noteq> [] \<and> list_all isDecimalDigit ds \<and> trim s = 43 # ds"
  then show "parseAlchemyTokenIdToDecimal s = Inr (bigintToString (decimalValue ds))"
    using parse_signed [of s 43 ds] by simp
next
  assume "ds \<noteq> [] \<and> list_all isDecimalDigit ds \<and> trim s = 45 # ds"
  then show "parseAlchemyTokenIdToDecimal s = Inr (bigintToString (- decimalValue ds))"
    using parse_signed [of s 45 ds] by simp
next
  assume "parseAlchemyTokenIdToDecimal s = Inl e"
  then show "e = SyntaxError" by (rule parse_error)
next
  assume a: "safeParse isAddress body = Inr address \<and> getNftsForOwner alchemy address = Some owned \<and>
    map parseAlchemyTokenIdToDecimal owned = map Inr ids"
  then have m: "mapE parseAlchemyTokenIdToDecimal owned = Inr ids" by (simp add: mapE_Inr_iff)
  from mapE_parse_decimal [OF m] obtain vs where vs: "ids = map bigintToString vs" by blast
  have "POST isAddress alchemy (Some body)
              = (\<lparr>status = 200,
                  payload = Success address LETTER_CONTRACT_ADDRESS
                              (map (fetchLetter alchemy) (map bigintToString (sort vs)))\<rparr>,
                 CallGetNftsForOwner address # map CallGetNftMetadata (map bigintToString (sort vs)))"
    using a m by (intro POST_success) (simp_all add: vs)
  moreover have "map itemTokenId (map (fetchLetter alchemy) (map bigintToString (sort vs)))
              = map bigintToString (sort vs)"
    by (simp add: comp_def itemTokenId_fetchLetter)
  ultimately show "\<exists>vs. ids = map bigintToString vs \<and>
            POST isAddress alchemy (Some body)
              = (\<lparr>status = 200,
                  payload = Success address LETTER_CONTRACT_ADDRESS
                              (map (fetchLetter alchemy) (map bigintToString (sort vs)))\<rparr>,
                 CallGetNftsForOwner address # map CallGetNftMetadata (map bigintToString (sort vs))) \<and>
            map itemTokenId (map (fetchLetter alchemy) (map bigintToString (sort vs)))
              = map bigintToString (sort vs)"
    using vs by blast
qed

text \<open>
  Claim C10 as stated covers every input string, with the decimal reading for all that
  is not taken as hexadecimal. Two inputs show otherwise: on \<open>0x\<close> nothing is returned
  (\<open>BigInt\<close> throws), and \<open>0o17\<close> is read by \<open>BigInt\<close> as the octal literal it is.
\<close>

theorem tokenId_normalisation_counterexample:
  "parseAlchemyTokenIdToDecimal (js ''0x'') = Inl SyntaxError \<and>
   parseAlchemyTokenIdToDecimal (js ''0o17'') = Inr (js ''15'')"
  by (simp add: parseAlchemyTokenIdToDecimal_def Let_def trim_def js_def isWhiteSpace_def
        startsWith_def onlyHexDigits_def isHexDigit_def isDecimalDigit_def isHexLetter_def
        hasHexLetter_def BigInt_def StringToBigInt_def digitsValue_def digitValue_def
        bigintToString_def natToDecimal.simps)

lemmas proxy_eval_defs =
  parseAlchemyTokenIdToDecimal_def Let_def trim_def js_def isWhiteSpace_def
  startsWith_def onlyHexDigits_def isHexDigit_def isDecimalDigit_def isHexLetter_def
  hasHexLetter_def BigInt_def StringToBigInt_def digitsValue_def digitValue_def
  bigintToString_def natToDecimal.simps hexadecimalValue_def decimalValue_def digitOf_def

lemma demo_POST:
  "POST looksLikeAddress demoAlchemy (Some (JObject [(js ''address'', JString someWallet)])) =
   (\<lparr>status = 200,
     payload = Success someWallet LETTER_CONTRACT_ADDRESS
       [\<lparr>itemTokenId = js ''7'', itemName = None, itemImageUrl = None, itemTokenUri = None\<rparr>,
        \<lparr>itemTokenId = js ''10'', itemName = None, itemImageUrl = None, itemTokenUri = None\<rparr>,
        \<lparr>itemTokenId = js ''31'', itemName = None, itemImageUrl = None, itemTokenUri = None\<rparr>]\<rparr>,
    [CallGetNftsForOwner someWallet, CallGetNftMetadata (js ''7''), CallGetNftMetadata (js ''10''),
     CallGetNftMetadata (js ''31'')])"
  by (simp add: POST_def safeParse_def looksLikeAddress_def someWallet_def demoAlchemy_def
        sortByE_def compareDecimal_def fetchLetter_def proxy_eval_defs)

lemma demo_safeParse:
  "safeParse looksLikeAddress (JObject [(js ''address'', JString someWallet)]) = Inr someWallet"
  by (simp add: safeParse_def looksLikeAddress_def js_def startsWith_def isHexDigit_def
        isDecimalDigit_def isHexLetter_def someWallet_def)

lemma demo_owned: "getNftsForOwner demoAlchemy someWallet = Some [js ''0x0a'', js ''7'', js ''1f'']"
  by (simp add: demoAlchemy_def)

lemma demo_normalised:
  "map parseAlchemyTokenIdToDecimal [js ''0x0a'', js ''7'', js ''1f'']
     = map Inr [js ''10'', js ''7'', js ''31'']"
  by (simp add: proxy_eval_defs)

theorem tokenId_normalisation_witness:
  "startsWith (trim (js '' 0x1F '')) (js ''0x'') \<and>
   parseAlchemyTokenIdToDecimal (js '' 0x1F '') = Inr (js ''31'') \<and>
   startsWith (trim (js ''0xg'')) (js ''0x'') \<and>
   parseAlchemyTokenIdToDecimal (js ''0xg'') = Inl SyntaxError \<and>
   onlyHexDigits (trim (js ''1f'')) \<and> hasHexLetter (trim (js ''1f'')) \<and>
   parseAlchemyTokenIdToDecimal (js ''1f'') = Inr (js ''31'') \<and>
   \<not> startsWith (trim (js ''0O17'')) (js ''0x'') \<and>
   \<not> (onlyHexDigits (trim (js ''0O17'')) \<and> hasHexLetter (trim (js ''0O17''))) \<and>
   parseAlchemyTokenIdToDecimal (js ''0O17'') = Inr (js ''15'') \<and>
   trim (js ''  '') = [] \<and> parseAlchemyTokenIdToDecimal (js ''  '') = Inr (js ''0'') \<and>
   trim (js ''0123'') \<noteq> [] \<and> list_all isDecimalDigit (trim (js ''0123'')) \<and>
   parseAlchemyTokenIdToDecimal (js ''0123'') = Inr (js ''123'') \<and>
   list_all isDecimalDigit (js ''7'') \<and> trim (js ''+7'') = 43 # js ''7'' \<and>
   parseAlchemyTokenIdToDecimal (js ''+7'') = Inr (js ''7'') \<and>
   list_all isDecimalDigit (js ''12'') \<and> trim (js '' -12'') = 45 # js ''12'' \<and>
   parseAlchemyTokenIdToDecimal (js '' -12'') = Inr (js ''-12'') \<and>
   (\<exists>vs. [js ''10'', js ''7'', js ''31''] = map bigintToString vs \<and>
         map bigintToString (sort vs) = [js ''7'', js ''10'', js ''31''])"
proof -
  have h1: "startsWith (trim (js '' 0x1F '')) (js ''0x'')" by (simp add: proxy_eval_defs)
  have v1: "(if onlyHexDigits (drop 2 (trim (js '' 0x1F '')))
             then Inr (bigintToString (hexadecimalValue (drop 2 (trim (js '' 0x1F '')))))
             else Inl SyntaxError) = Inr (js ''31'')"
    by (simp add: proxy_eval_defs)
  have h2: "startsWith (trim (js ''0xg'')) (js ''0x'')" by (simp add: proxy_eval_defs)
  have v2: "(if onlyHexDigits (drop 2 (trim (js ''0xg'')))
             then Inr (bigintToString (hexadecimalValue (drop 2 (trim (js ''0xg'')))))
             else Inl SyntaxError) = Inl SyntaxError"
    by (simp add: proxy_eval_defs)
  have h3: "onlyHexDigits (trim (js ''1f'')) \<and> hasHexLetter (trim (js ''1f''))"
    by (simp add: proxy_eval_defs)
  have v3: "bigintToString (hexadecimalValue (trim (js ''1f''))) = js ''31''"
    by (simp add: proxy_eval_defs)
  have h4: "\<not> startsWith (trim (js ''0O17'')) (js ''0x'') \<and>
            \<not> (onlyHexDigits (trim (js ''0O17'')) \<and> hasHexLetter (trim (js ''0O17'')))"
    by (simp add: proxy_eval_defs)
  have v4: "bind (BigInt (trim (js ''0O17''))) (\<lambda>v. Inr (bigintToString v)) = Inr (js ''15'')"
    by (simp add: proxy_eval_defs)
  have h5: "trim (js ''  '') = []" by (simp add: proxy_eval_defs)
  have h6: "trim (js ''0123'') \<noteq> [] \<and> list_all isDecimalDigit (trim (js ''0123''))"
    by (simp add: proxy_eval_defs)
  have v6: "bigintToString (decimalValue (trim (js ''0123''))) = js ''123''"
    by (simp add: proxy_eval_defs)
  have h7: "js ''7'' \<noteq> [] \<and> list_all isDecimalDigit (js ''7'') \<and> trim (js ''+7'') = 43 # js ''7''"
    by (simp add: proxy_eval_defs)
  have v7: "bigintToString (decimalValue (js ''7'')) = js ''7''" by (simp add: proxy_eval_defs)
  have h8: "js ''12'' \<noteq> [] \<and> list_all isDecimalDigit (js ''12'') \<and> trim (js '' -12'') = 45 # js ''12''"
    by (simp add: proxy_eval_defs)
  have v8: "bigintToString (- decimalValue (js ''12'')) = js ''-12''" by (simp add: proxy_eval_defs)
  note t1 = tokenId_normalisation [where s = "js '' 0x1F ''", THEN conjunct1]
  note t2 = tokenId_normalisation [where s = "js ''0xg''", THEN conjunct1]
  note t3 = tokenId_normalisation [where s = "js ''1f''", THEN conjunct2, THEN conjunct1]
  note t4 = tokenId_normalisation [where s = "js ''0O17''", THEN conjunct2, THEN conjunct2,
      THEN conjunct1]
  note t5 = tokenId_normalisation [where s = "js ''  ''", THEN conjunct2, THEN conjunct2,
      THEN conjunct2, THEN conjunct1]
  note t6 = tokenId_normalisation [where s = "js ''0123''", THEN conjunct2, THEN conjunct2,
      THEN conjunct2, THEN conjunct2, THEN conjunct1]
  note t7 = tokenId_normalisation [where s = "js ''+7'' " and ds = "js ''7''", THEN conjunct2,
      THEN conjunct2, THEN conjunct2, THEN conjunct2, THEN conjunct2, THEN conjunct1]
  note t8 = tokenId_normalisation [where s = "js '' -12''" and ds = "js ''12''", THEN conjunct2,
      THEN conjunct2, THEN conjunct2, THEN conjunct2, THEN conjunct2, THEN conjunct2,
      THEN conjunct1]
  note t9 = tokenId_normalisation [where isAddress = looksLikeAddress and alchemy = demoAlchemy
      and body = "JObject [(js ''address'', JString someWallet)]" and address = someWallet
      and owned = "[js ''0x0a'', js ''7'', js ''1f'']" and ids = "[js ''10'', js ''7'', js ''31'']",
      THEN conjunct2, THEN conjunct2, THEN conjunct2, THEN conjunct2, THEN conjunct2,
      THEN conjunct2, THEN conjunct2, THEN conjunct2]
  have p1: "parseAlchemyTokenIdToDecimal (js '' 0x1F '') = Inr (js ''31'')"
    using t1 h1 v1 by simp
  have p2: "parseAlchemyTokenIdToDecimal (js ''0xg'') = Inl SyntaxError"
    using t2 h2 v2 by simp
  have p3: "parseAlchemyTokenIdToDecimal (js ''1f'') = Inr (js ''31'')"
    using t3 h3 v3 by simp
  have p4: "parseAlchemyTokenIdToDecimal (js ''0O17'') = Inr (js ''15'')"
    using t4 h4 v4 by simp
  have p5: "parseAlchemyTokenIdToDecimal (js ''  '') = Inr (js ''0'')"
    using t5 h5 by blast
  have p6: "parseAlchemyTokenIdToDecimal (js ''0123'') = Inr (js ''123'')"
    using t6 h6 v6 by simp
  have p7: "parseAlchemyTokenIdToDecimal (js ''+7'') = Inr (js ''7'')"
    using t7 h7 v7 by simp
  have p8: "parseAlchemyTokenIdToDecimal (js '' -12'') = Inr (js ''-12'')"
    using t8 h8 v8 by simp
  note e9 = t9 [THEN mp, OF conjI [OF demo_safeParse conjI [OF demo_owned demo_normalised]]]
  from e9 obtain vs where
    a: "[js ''10'', js ''7'', js ''31''] = map bigintToString vs"
    and b: "POST looksLikeAddress demoAlchemy (Some (JObject [(js ''address'', JString someWallet)]))
              = (\<lparr>status = 200,
                  payload = Success someWallet LETTER_CONTRACT_ADDRESS
                              (map (fetchLetter demoAlchemy) (map bigintToString (sort vs)))\<rparr>,
                 CallGetNftsForOwner someWallet # map CallGetNftMetadata (map bigintToString (sort vs)))"
    and c: "map itemTokenId (map (fetchLetter demoAlchemy) (map bigintToString (sort vs)))
              = map bigintToString (sort vs)"
    by (elim exE conjE)
  from b have "map (fetchLetter demoAlchemy) (map bigintToString (sort vs))
     = [\<lparr>itemTokenId = js ''7'', itemName = None, itemImageUrl = None, itemTokenUri = None\<rparr>,
        \<lparr>itemTokenId = js ''10'', itemName = None, itemImageUrl = None, itemTokenUri = None\<rparr>,
        \<lparr>itemTokenId = js ''31'', itemName = None, itemImageUrl = None, itemTokenUri = None\<rparr>]"
    unfolding demo_POST by simp
  then have "map itemTokenId (map (fetchLetter demoAlchemy) (map bigintToString (sort vs)))
     = [js ''7'', js ''10'', js ''31'']" by (simp only: list.map LetterItem.simps)
  then have "map bigintToString (sort vs) = [js ''7'', js ''10'', js ''31'']"
    unfolding c .
  with a have p9: "\<exists>vs. [js ''10'', js ''7'', js ''31''] = map bigintToString vs \<and>
         map bigintToString (sort vs) = [js ''7'', js ''10'', js ''31'']"
    by (intro exI [of _ vs] conjI)
  note h = h1 h2 h3 [THEN conjunct1] h3 [THEN conjunct2] h4 [THEN conjunct1] h4 [THEN conjunct2]
    h5 h6 [THEN conjunct1] h6 [THEN conjunct2] h7 [THEN conjunct2, THEN conjunct1]
    h7 [THEN conjunct2, THEN conjunct2] h8 [THEN conjunct2, THEN conjunct1]
    h8 [THEN conjunct2, THEN conjunct2]
  show ?thesis by (intro conjI) (fact h p1 p2 p3 p4 p5 p6 p7 p8 p9)+
qed


subsection \<open>The route's responses\<close>

lemma POST_normalisation_throws:
  assumes "safeParse isAddress body = Inr address"
      and "getNftsForOwner alchemy address = Some owned"
      and "mapE parseAlchemyTokenIdToDecimal owned = Inl e"
  shows "POST isAddress alchemy (Some body)
           = (\<lparr>status = 500, payload = Failed (js ''Failed to fetch NFTs'') SyntaxError\<rparr>,
              [CallGetNftsForOwner address])"
proof -
  from mapE_error [OF assms(3)] have "e = SyntaxError" using parse_error by blast
  then show ?thesis using assms by (simp add: POST_def serverError_def)
qed

text \<open>
  Claim C8, with the part on upstream failures as the code has it. A body that fails
  validation is answered with status 400 and zod's issues, which are not empty, and no
  call to the indexing service is made; for an object body every issue carries the path
  of the \<open>address\<close> field, and a string that is no address gives the schema's custom
  issue. A request whose body is no JSON, a call for the owner's tokens that throws, and
  a token id that \<open>BigInt\<close> refuses are each answered with status 500 and the message
  \<open>Failed to fetch NFTs\<close>; in the first case no call has been made, in the others only
  the call for the owner's tokens. Otherwise the answer is status 200 with the address,
  the Letter contract and the letters: one per normalised id, in ascending order, each
  made by \<open>fetchLetter\<close> after one metadata call per id. A metadata call that throws is
  caught for its item, which keeps its id with name, image URL and token URI \<open>null\<close>;
  it does not change the status.
\<close>

theorem proxy_error_contract:
  "(safeParse isAddress body = Inl issues \<longrightarrow>
      POST isAddress alchemy (Some body) = (\<lparr>status = 400, payload = ValidationFailed issues\<rparr>, [])
      \<and> issues \<noteq> []) \<and>
   (safeParse isAddress (JObject members) = Inl issues \<longrightarrow>
      (\<forall>i \<in> set issues. issuePath i = [js ''address''])) \<and>
   (map_of members (js ''address'') = Some (JString a) \<and> \<not> isAddress a \<longrightarrow>
      safeParse isAddress (JObject members)
        = Inl [Custom [js ''address''] (js ''Invalid Ethereum address format'')]) \<and>
   POST isAddress alchemy None
     = (\<lparr>status = 500, payload = Failed (js ''Failed to fetch NFTs'') SyntaxError\<rparr>, []) \<and>
   (safeParse isAddress body = Inr address \<and> getNftsForOwner alchemy address = None \<longrightarrow>
      POST isAddress alchemy (Some body)
        = (\<lparr>status = 500, payload = Failed (js ''Failed to fetch NFTs'') UpstreamError\<rparr>,
           [CallGetNftsForOwner address])) \<and>
   (safeParse isAddress body = Inr address \<and> getNftsForOwner alchemy address = Some owned \<and>
    mapE parseAlchemyTokenIdToDecimal owned = Inl e \<longrightarrow>
      POST isAddress alchemy (Some body)
        = (\<lparr>status = 500, payload = Failed (js ''Failed to fetch NFTs'') SyntaxError\<rparr>,
           [CallGetNftsForOwner address])) \<and>
   (safeParse isAddress body = Inr address \<and> getNftsForOwner alchemy address = Some owned \<and>
    mapE parseAlchemyTokenIdToDecimal owned = Inr (map bigintToString vs) \<longrightarrow>
      POST isAddress alchemy (Some body)
        = (\<lparr>status = 200,
            payload = Success address LETTER_CONTRACT_ADDRESS
                        (map (fetchLetter alchemy) (map bigintToString (sort vs)))\<rparr>,
           CallGetNftsForOwner address # map CallGetNftMetadata (map bigintToString (sort vs)))) \<and>
   (getNftMetadata alchemy t = None \<longrightarrow>
      fetchLetter alchemy t
        = \<lparr>itemTokenId = t, itemName = None, itemImageUrl = None, itemTokenUri = None\<rparr>) \<and>
   (getNftMetadata alchemy t = Some md \<longrightarrow>
      fetchLetter alchemy t
        = \<lparr>itemTokenId = t, itemName = extractName md, itemImageUrl = extractImageUrl md,
           itemTokenUri = extractTokenUri md\<rparr>)"
proof (intro conjI impI)
  assume a: "safeParse isAddress body = Inl issues"
  show "POST isAddress alchemy (Some body) = (\<lparr>status = 400, payload = ValidationFailed issues\<rparr>, [])"
    by (simp add: POST_def a)
  show "issues \<noteq> []"
    using a by (auto simp: safeParse_def split: json.splits option.splits if_splits)
next
  assume "safeParse isAddress (JObject members) = Inl issues"
  then show "\<forall>i \<in> set issues. issuePath i = [js ''address'']"
    by (auto simp: safeParse_def split: json.splits option.splits if_splits)
next
  assume "map_of members (js ''address'') = Some (JString a) \<and> \<not> isAddress a"
  then show "safeParse isAddress (JObject members)
        = Inl [Custom [js ''address''] (js ''Invalid Ethereum address format'')]"
    by (simp add: safeParse_def)
next
  show "POST isAddress alchemy None
     = (\<lparr>status = 500, payload = Failed (js ''Failed to fetch NFTs'') SyntaxError\<rparr>, [])"
    by (simp add: POST_def serverError_def)
next
  assume "safeParse isAddress body = Inr address \<and> getNftsForOwner alchemy address = None"
  then show "POST isAddress alchemy (Some body)
        = (\<lparr>status = 500, payload = Failed (js ''Failed to fetch NFTs'') UpstreamError\<rparr>,
           [CallGetNftsForOwner address])"
    by (simp add: POST_def serverError_def)
next
  assume "safeParse isAddress body = Inr address \<and> getNftsForOwner alchemy address = Some owned \<and>
    mapE parseAlchemyTokenIdToDecimal owned = Inl e"
  then show "POST isAddress alchemy (Some body)
        = (\<lparr>status = 500, payload = Failed (js ''Failed to fetch NFTs'') SyntaxError\<rparr>,
           [CallGetNftsForOwner address])"
    using POST_normalisation_throws [of isAddress body address alchemy owned e] by simp
next
  assume "safeParse isAddress body = Inr address \<and> getNftsForOwner alchemy address = Some owned \<and>
    mapE parseAlchemyTokenIdToDecimal owned = Inr (map bigintToString vs)"
  then show "POST isAddress alchemy (Some body)
        = (\<lparr>status = 200,
            payload = Success address LETTER_CONTRACT_ADDRESS
                        (map (fetchLetter alchemy) (map bigintToString (sort vs)))\<rparr>,
           CallGetNftsForOwner address # map CallGetNftMetadata (map bigintToString (sort vs)))"
    using POST_success [of isAddress body address alchemy owned vs] by simp
next
  assume "getNftMetadata alchemy t = None"
  then show "fetchLetter alchemy t
        = \<lparr>itemTokenId = t, itemName = None, itemImageUrl = None, itemTokenUri = None\<rparr>"
    by (simp add: fetchLetter_def)
next
  assume "getNftMetadata alchemy t = Some md"
  then show "fetchLetter alchemy t
        = \<lparr>itemTokenId = t, itemName = extractName md, itemImageUrl = extractImageUrl md,
           itemTokenUri = extractTokenUri md\<rparr>"
    by (simp add: fetchLetter_def)
qed

text \<open>
  Claim C8 as stated answers 500 whenever an upstream indexing call throws. The metadata
  call is such a call, and the route catches it: with an indexer whose every metadata
  call throws, the three metadata calls are made and the answer is status 200, each
  letter with its id and the other fields \<open>null\<close>.
\<close>

theorem proxy_error_contract_counterexample:
  "getNftMetadata demoAlchemy (js ''7'') = None \<and>
   getNftMetadata demoAlchemy (js ''10'') = None \<and>
   getNftMetadata demoAlchemy (js ''31'') = None \<and>
   POST looksLikeAddress demoAlchemy (Some (JObject [(js ''address'', JString someWallet)])) =
   (\<lparr>status = 200,
     payload = Success someWallet LETTER_CONTRACT_ADDRESS
       [\<lparr>itemTokenId = js ''7'', itemName = None, itemImageUrl = None, itemTokenUri = None\<rparr>,
        \<lparr>itemTokenId = js ''10'', itemName = None, itemImageUrl = None, itemTokenUri = None\<rparr>,
        \<lparr>itemTokenId = js ''31'', itemName = None, itemImageUrl = None, itemTokenUri = None\<rparr>]\<rparr>,
    [CallGetNftsForOwner someWallet, CallGetNftMetadata (js ''7''), CallGetNftMetadata (js ''10''),
     CallGetNftMetadata (js ''31'')])"
  by (simp add: POST_def safeParse_def looksLikeAddress_def someWallet_def demoAlchemy_def
        sortByE_def compareDecimal_def fetchLetter_def proxy_eval_defs)

theorem proxy_error_contract_witness:
  "safeParse looksLikeAddress (JObject [(js ''address'', JString (js ''0x12''))])
     = Inl [Custom [js ''address''] (js ''Invalid Ethereum address format'')] \<and>
   POST looksLikeAddress demoAlchemy (Some (JObject [(js ''address'', JString (js ''0x12''))]))
     = (\<lparr>status = 400,
         payload = ValidationFailed [Custom [js ''address''] (js ''Invalid Ethereum address format'')]\<rparr>,
        []) \<and>
   safeParse looksLikeAddress (JObject [(js ''address'', JString (js ''0x00000000000000000000000000000000deadbee0''))])
     = Inr (js ''0x00000000000000000000000000000000deadbee0'') \<and>
   getNftsForOwner demoAlchemy (js ''0x00000000000000000000000000000000deadbee0'') = None \<and>
   POST looksLikeAddress demoAlchemy
      (Some (JObject [(js ''address'', JString (js ''0x00000000000000000000000000000000deadbee0''))]))
     = (\<lparr>status = 500, payload = Failed (js ''Failed to fetch NFTs'') UpstreamError\<rparr>,
        [CallGetNftsForOwner (js ''0x00000000000000000000000000000000deadbee0'')]) \<and>
   safeParse looksLikeAddress (JObject [(js ''address'', JString someWallet)]) = Inr someWallet \<and>
   getNftsForOwner malformedAlchemy someWallet = Some [js ''7'', js ''0x''] \<and>
   mapE parseAlchemyTokenIdToDecimal [js ''7'', js ''0x''] = Inl SyntaxError \<and>
   POST looksLikeAddress malformedAlchemy (Some (JObject [(js ''address'', JString someWallet)]))
     = (\<lparr>status = 500, payload = Failed (js ''Failed to fetch NFTs'') SyntaxError\<rparr>,
        [CallGetNftsForOwner someWallet]) \<and>
   getNftsForOwner metadataAlchemy someWallet = Some [js ''0x0a'', js ''7'', js ''1f''] \<and>
   mapE parseAlchemyTokenIdToDecimal [js ''0x0a'', js ''7'', js ''1f'']
     = Inr (map bigintToString [10, 7, 31]) \<and>
   getNftMetadata metadataAlchemy (js ''7'') = Some (JObject [(js ''name'', JString (js ''Letter 7''))]) \<and>
   getNftMetadata metadataAlchemy (js ''10'') = None \<and>
   getNftMetadata metadataAlchemy (js ''31'') = None \<and>
   POST looksLikeAddress metadataAlchemy (Some (JObject [(js ''address'', JString someWallet)]))
     = (\<lparr>status = 200,
         payload = Success someWallet LETTER_CONTRACT_ADDRESS
           [\<lparr>itemTokenId = js ''7'', itemName = Some (js ''Letter 7''), itemImageUrl = None,
             itemTokenUri = None\<rparr>,
            \<lparr>itemTokenId = js ''10'', itemName = None, itemImageUrl = None, itemTokenUri = None\<rparr>,
            \<lparr>itemTokenId = js ''31'', itemName = None, itemImageUrl = None, itemTokenUri = None\<rparr>]\<rparr>,
        [CallGetNftsForOwner someWallet, CallGetNftMetadata (js ''7''), CallGetNftMetadata (js ''10''),
         CallGetNftMetadata (js ''31'')])"
proof -
  let ?bad = "JObject [(js ''address'', JString (js ''0x12''))]"
  let ?other = "js ''0x00000000000000000000000000000000deadbee0''"
  let ?req = "JObject [(js ''address'', JString someWallet)]"
  let ?md = "JObject [(js ''name'', JString (js ''Letter 7''))]"
  have b: "safeParse looksLikeAddress ?bad
           = Inl [Custom [js ''address''] (js ''Invalid Ethereum address format'')]"
    by (simp add: safeParse_def looksLikeAddress_def js_def)
  have o: "safeParse looksLikeAddress (JObject [(js ''address'', JString ?other)]) = Inr ?other"
    by (simp add: safeParse_def looksLikeAddress_def js_def startsWith_def isHexDigit_def
          isDecimalDigit_def isHexLetter_def)
  have on: "getNftsForOwner demoAlchemy ?other = None"
    by (simp add: demoAlchemy_def someWallet_def js_def)
  have mo: "getNftsForOwner malformedAlchemy someWallet = Some [js ''7'', js ''0x'']"
    by (simp add: malformedAlchemy_def)
  have mm: "mapE parseAlchemyTokenIdToDecimal [js ''7'', js ''0x''] = Inl SyntaxError"
    by (simp add: proxy_eval_defs)
  have ow: "getNftsForOwner metadataAlchemy someWallet = Some [js ''0x0a'', js ''7'', js ''1f'']"
    by (simp add: metadataAlchemy_def)
  have m: "mapE parseAlchemyTokenIdToDecimal [js ''0x0a'', js ''7'', js ''1f'']
           = Inr (map bigintToString [10, 7, 31])"
    by (simp add: proxy_eval_defs)
  have g7: "getNftMetadata metadataAlchemy (js ''7'') = Some ?md"
    by (simp add: metadataAlchemy_def)
  have g10: "getNftMetadata metadataAlchemy (js ''10'') = None"
    by (simp add: metadataAlchemy_def js_def)
  have g31: "getNftMetadata metadataAlchemy (js ''31'') = None"
    by (simp add: metadataAlchemy_def js_def)
  have x: "extractName ?md = Some (js ''Letter 7'')" "extractImageUrl ?md = None"
    "extractTokenUri ?md = None"
    by (simp_all add: extractName_def extractImageUrl_def extractTokenUri_def rawMetadata_def js_def)
  have s: "map bigintToString (sort [10, 7, 31]) = [js ''7'', js ''10'', js ''31'']"
    by (simp add: proxy_eval_defs)
  note th = proxy_error_contract
  note t1 = th [where isAddress = looksLikeAddress and body = ?bad and alchemy = demoAlchemy
      and issues = "[Custom [js ''address''] (js ''Invalid Ethereum address format'')]",
      THEN conjunct1, THEN mp, OF b, THEN conjunct1]
  note t2 = th [where isAddress = looksLikeAddress and alchemy = demoAlchemy and address = ?other
      and body = "JObject [(js ''address'', JString ?other)]",
      THEN conjunct2, THEN conjunct2, THEN conjunct2, THEN conjunct2, THEN conjunct1, THEN mp,
      OF conjI [OF o on]]
  note t3 = th [where isAddress = looksLikeAddress and alchemy = malformedAlchemy
      and address = someWallet and body = ?req and owned = "[js ''7'', js ''0x'']"
      and e = SyntaxError,
      THEN conjunct2, THEN conjunct2, THEN conjunct2, THEN conjunct2, THEN conjunct2,
      THEN conjunct1, THEN mp, OF conjI [OF demo_safeParse conjI [OF mo mm]]]
  note t4 = th [where isAddress = looksLikeAddress and alchemy = metadataAlchemy
      and address = someWallet and body = ?req and owned = "[js ''0x0a'', js ''7'', js ''1f'']"
      and vs = "[10, 7, 31]",
      THEN conjunct2, THEN conjunct2, THEN conjunct2, THEN conjunct2, THEN conjunct2,
      THEN conjunct2, THEN conjunct1, THEN mp, OF conjI [OF demo_safeParse conjI [OF ow m]]]
  note f7 = th [where alchemy = metadataAlchemy and t = "js ''7''" and md = ?md,
      THEN conjunct2, THEN conjunct2, THEN conjunct2, THEN conjunct2, THEN conjunct2,
      THEN conjunct2, THEN conjunct2, THEN conjunct2, THEN mp, OF g7]
  note f10 = th [where alchemy = metadataAlchemy and t = "js ''10''",
      THEN conjunct2, THEN conjunct2, THEN conjunct2, THEN conjunct2, THEN conjunct2,
      THEN conjunct2, THEN conjunct2, THEN conjunct1, THEN mp, OF g10]
  note f31 = th [where alchemy = metadataAlchemy and t = "js ''31''",
      THEN conjunct2, THEN conjunct2, THEN conjunct2, THEN conjunct2, THEN conjunct2,
      THEN conjunct2, THEN conjunct2, THEN conjunct1, THEN mp, OF g31]
  have r4: "POST looksLikeAddress metadataAlchemy (Some ?req)
     = (\<lparr>status = 200,
         payload = Success someWallet LETTER_CONTRACT_ADDRESS
           [\<lparr>itemTokenId = js ''7'', itemName = Some (js ''Letter 7''), itemImageUrl = None,
             itemTokenUri = None\<rparr>,
            \<lparr>itemTokenId = js ''10'', itemName = None, itemImageUrl = None, itemTokenUri = None\<rparr>,
            \<lparr>itemTokenId = js ''31'', itemName = None, itemImageUrl = None, itemTokenUri = None\<rparr>]\<rparr>,
        [CallGetNftsForOwner someWallet, CallGetNftMetadata (js ''7''), CallGetNftMetadata (js ''10''),
         CallGetNftMetadata (js ''31'')])"
    unfolding t4 s by (simp only: list.map f7 f10 f31 x)
  show ?thesis
    by (intro conjI) (fact b t1 o on t2 demo_safeParse mo mm t3 ow m g7 g10 g31 r4)+
qed



end
